theory Spec2Isabelle
  imports Complex_Main "HOL-Library.Word" "HOL-Library.Log_Nat"
begin

section \<open>Floating-point numbers\<close>

text \<open>
  A Go \<open>float64\<close> is an IEEE 754 binary64 number: a finite value, an infinity or a NaN.
  A finite value is kept as the real number it denotes. The two zeros are not told apart:
  in this code the sign of a zero shows only in printed text. The type has a value
  \<open>Finite x\<close> for every real \<open>x\<close>, also for those that no binary64 number denotes; the
  operations return values that binary64 has, and the properties below hold for all arguments.

  Every arithmetic operation gives the exact result rounded to the nearest binary64 number,
  ties to the one with an even significand, and an infinity when the rounded result would
  reach \<open>2 ^ 1024\<close>. Each operation is rounded on its own, as on amd64.

  \<^item> \<open>binade x\<close> is the exponent \<open>e\<close> with \<open>2 ^ e \<le> |x| < 2 ^ (e + 1)\<close>;
  \<^item> \<open>nearest64 x\<close> rounds to 53 significant bits, and to multiples of \<open>2 ^ -1074\<close>
    below \<open>2 ^ -1022\<close>;
  \<^item> \<open>round64 x\<close> is the \<open>float64\<close> that an operation with the exact result \<open>x\<close>
    returns.
\<close>

datatype float64 = Finite real | PosInf | NegInf | NaN

definition roundEven :: "real \<Rightarrow> int" where
  "roundEven x =
     (let n = \<lfloor>x\<rfloor>; d = x - of_int n
      in if d < 1 / 2 then n else if 1 / 2 < d then n + 1 else if even n then n else n + 1)"

definition binade :: "real \<Rightarrow> int" where
  "binade x =
     (if 1 \<le> \<bar>x\<bar> then bitlen \<lfloor>\<bar>x\<bar>\<rfloor> - 1
      else (let k = bitlen \<lfloor>1 / \<bar>x\<bar>\<rfloor> - 1
            in if \<bar>x\<bar> * 2 powi k = 1 then - k else - k - 1))"

definition nearest64 :: "real \<Rightarrow> real" where
  "nearest64 x =
     (if x = 0 then 0
      else (let q = 2 powi (max (binade x) (- 1022) - 52)
            in of_int (roundEven (x / q)) * q))"

definition round64 :: "real \<Rightarrow> float64" where
  "round64 x =
     (let r = nearest64 x
      in if 2 ^ 1024 \<le> r then PosInf else if r \<le> - (2 ^ 1024) then NegInf else Finite r)"

text \<open>The operators \<open>+\<close>, \<open>-\<close> and \<open>*\<close> of Go on \<open>float64\<close>.\<close>

fun fadd :: "float64 \<Rightarrow> float64 \<Rightarrow> float64" where
  "fadd NaN b = NaN"
| "fadd a NaN = NaN"
| "fadd PosInf NegInf = NaN"
| "fadd NegInf PosInf = NaN"
| "fadd PosInf b = PosInf"
| "fadd a PosInf = PosInf"
| "fadd NegInf b = NegInf"
| "fadd a NegInf = NegInf"
| "fadd (Finite x) (Finite y) = round64 (x + y)"

fun fneg :: "float64 \<Rightarrow> float64" where
  "fneg NaN = NaN"
| "fneg PosInf = NegInf"
| "fneg NegInf = PosInf"
| "fneg (Finite x) = Finite (- x)"

definition fsub :: "float64 \<Rightarrow> float64 \<Rightarrow> float64" where
  "fsub a b = fadd a (fneg b)"

text \<open>The sign of a product with an infinity; a zero times an infinity is a NaN.\<close>

definition signedInf :: "bool \<Rightarrow> float64" where
  "signedInf positive = (if positive then PosInf else NegInf)"

fun fmul :: "float64 \<Rightarrow> float64 \<Rightarrow> float64" where
  "fmul NaN b = NaN"
| "fmul a NaN = NaN"
| "fmul PosInf PosInf = PosInf"
| "fmul PosInf NegInf = NegInf"
| "fmul NegInf PosInf = NegInf"
| "fmul NegInf NegInf = PosInf"
| "fmul PosInf (Finite y) = (if y = 0 then NaN else signedInf (0 < y))"
| "fmul NegInf (Finite y) = (if y = 0 then NaN else signedInf (y < 0))"
| "fmul (Finite x) PosInf = (if x = 0 then NaN else signedInf (0 < x))"
| "fmul (Finite x) NegInf = (if x = 0 then NaN else signedInf (x < 0))"
| "fmul (Finite x) (Finite y) = round64 (x * y)"

text \<open>The only division of the code is by the constant 2.\<close>

fun fdiv2 :: "float64 \<Rightarrow> float64" where
  "fdiv2 NaN = NaN"
| "fdiv2 PosInf = PosInf"
| "fdiv2 NegInf = NegInf"
| "fdiv2 (Finite x) = round64 (x / 2)"

section \<open>Data model of the pvts and tradestation packages\<close>

text \<open>
  A Go \<open>error\<close> is represented by its message. A \<open>time.Time\<close> is an instant, counted
  in nanoseconds from the instant of the zero value \<open>time.Time{}\<close>.
  Pointers held in decoded values are taken to be non-nil.
\<close>

type_synonym int64 = "64 word"
type_synonym error = string
type_synonym Time = int

definition zeroTime :: Time where
  "zeroTime = 0"

subsection \<open>tradestation/order.go\<close>

type_synonym Action = string

abbreviation BUY :: Action where "BUY \<equiv> ''BUY''"
abbreviation SELL :: Action where "SELL \<equiv> ''SELL''"
abbreviation BUYTOCOVER :: Action where "BUYTOCOVER \<equiv> ''BUYTOCOVER''"
abbreviation SELLSHORT :: Action where "SELLSHORT \<equiv> ''SELLSHORT''"

type_synonym TimeInForceDuration = string

abbreviation DAY :: TimeInForceDuration where "DAY \<equiv> ''DAY''"

type_synonym TSOrderType = string

abbreviation LIMIT :: TSOrderType where "LIMIT \<equiv> ''Limit''"

record OrderRequest =
  AccountID :: string
  LimitPrice :: float64
  OrderConfirmID :: string
  OrderType :: TSOrderType
  Quantity :: int64
  StopPrice :: float64
  Symbol :: string
  TimeInForceDur :: TimeInForceDuration
  TradeAction :: Action

subsection \<open>tradestation/brokerage.go\<close>

text \<open>
  Of \<open>Account\<close>, \<open>Balance\<close>, \<open>Position\<close>, \<open>Order\<close>, \<open>OrderLeg\<close> and \<open>Quote\<close> the
  records keep the fields that \<open>Sync\<close> and \<open>GetStrategy\<close> read.
\<close>

record Account =
  AccountID :: string

record Balance =
  CashBalance :: float64

record Position =
  Quantity :: int64
  Symbol :: string

record OrderLeg =
  QuantityOrdered :: int64
  ExecQuantity :: int64
  QuantityRemaining :: int64
  BuyOrSell :: string
  Symbol :: string

record Order =
  Legs :: "OrderLeg list"
  OrderID :: string
  StatusDescription :: string

record Quote =
  Ask :: float64
  Bid :: float64
  Symbol :: string

subsection \<open>pvts\<close>

record TradeLink =
  PortfolioID :: string
  AccountID :: string
  LastTradeDate :: Time
  NextTradeDate :: Time

record Transaction =
  ID :: string
  Cleared :: bool
  Commission :: float64
  CompositeFIGI :: string
  Date :: string
  GainLoss :: float64
  Kind :: string
  Memo :: string
  Predicted :: bool
  PricePerShare :: float64
  Shares :: float64
  SourceID :: string
  TaxDisposition :: string
  Ticker :: string
  TotalValue :: float64

text \<open>
  \<open>Members\<close> is a Go map. It is only ever ranged over, so it is kept as the list of its
  entries in the order in which the range statement visits them.
\<close>

record Allocation =
  Date :: string
  Members :: "(string \<times> float64) list"

record PVRebalance =
  Allocation :: Allocation
  NextTradeDate :: string
  Transactions :: "Transaction list"

record PVPosition =
  CompositeFIGI :: string
  Ticker :: string
  Shares :: float64

record PVSecurity =
  CompositeFIGI :: string
  Ticker :: string

section \<open>Library functions of Go used by the code\<close>

text \<open>
  \<open>strings.ReplaceAll(s, old, new)\<close> for an \<open>old\<close> of one byte, which is how both call
  sites use it (\<open>"/"\<close> and \<open>"."\<close>).
\<close>

definition ReplaceAll :: "string \<Rightarrow> char \<Rightarrow> string \<Rightarrow> string" where
  "ReplaceAll s old new = concat (map (\<lambda>c. if c = old then new else [c]) s)"

text \<open>
  \<open>strings.ToUpper\<close> on ASCII text: the letters \<open>a\<close> to \<open>z\<close> (bytes 97 to 122) move to
  \<open>A\<close> to \<open>Z\<close>, every other byte stays. (On text outside ASCII Go applies the Unicode
  upper-case mapping to each rune; no rune other than \<open>y\<close> and \<open>Y\<close> has the upper case
  \<open>Y\<close>, so the comparison made by \<open>Sync\<close> is the same.)
\<close>

definition upper_char :: "char \<Rightarrow> char" where
  "upper_char c =
     (let n = (of_char c :: nat) in if 97 \<le> n \<and> n \<le> 122 then char_of (n - 32) else c)"

definition ToUpper :: "string \<Rightarrow> string" where
  "ToUpper s = map upper_char s"

text \<open>
  The conversion \<open>int64(x)\<close> of a \<open>float64\<close> discards the fraction (truncation towards
  zero). When the value is not finite or the truncated value does not fit into 64 bits the Go
  specification leaves the result to the implementation; that result is the parameter
  \<open>oor\<close>.
\<close>

definition trunc :: "real \<Rightarrow> int" where
  "trunc x = (if 0 \<le> x then \<lfloor>x\<rfloor> else \<lceil>x\<rceil>)"

definition int64_range :: "int \<Rightarrow> bool" where
  "int64_range n = (- (2 ^ 63) \<le> n \<and> n < 2 ^ 63)"

definition int64_of_float64 :: "(float64 \<Rightarrow> int64) \<Rightarrow> float64 \<Rightarrow> int64" where
  "int64_of_float64 oor v =
     (case v of
        Finite x \<Rightarrow> if int64_range (trunc x) then word_of_int (trunc x) else oor v
      | _ \<Rightarrow> oor v)"

text \<open>
  The conversion \<open>float64(n)\<close> of an \<open>int64\<close> rounds to the nearest \<open>float64\<close>; it is
  exact up to 53 bits.
\<close>

definition float64_of_int64 :: "int64 \<Rightarrow> float64" where
  "float64_of_int64 n = round64 (real_of_int (sint n))"

section \<open>Order construction\<close>

definition pvTicker2TradeStation :: "string \<Rightarrow> string" where
  "pvTicker2TradeStation ticker =
     (let ticker = ReplaceAll ticker (CHR ''/'') ''.''
      in if ticker = ''BRK.A'' then ''BRK.B'' else ticker)"

text \<open>
  The body of the loop of \<open>createOrderRequests\<close> up to the \<open>append\<close>. The request
  \<open>req\<close> (\<open>o\<close> in the source) is built with an empty \<open>TradeAction\<close>, the zero value
  (\<open>OrderConfirmID\<close> and \<open>StopPrice\<close> are not set either); then the \<open>switch\<close> on the
  kind sets the action. Its \<open>default\<close> branch only logs a warning. The receiver \<open>tl\<close> of
  the source is \<open>tlink\<close> here.
\<close>

definition orderRequestOf :: "(float64 \<Rightarrow> int64) \<Rightarrow> TradeLink \<Rightarrow> Transaction \<Rightarrow> OrderRequest" where
  "orderRequestOf oor tlink trx =
     (let ticker = pvTicker2TradeStation (Transaction.Ticker trx);
          req = \<lparr>OrderRequest.AccountID = TradeLink.AccountID tlink,
               LimitPrice = PricePerShare trx,
               OrderConfirmID = '''',
               OrderType = LIMIT,
               OrderRequest.Quantity = int64_of_float64 oor (Transaction.Shares trx),
               StopPrice = Finite 0,
               OrderRequest.Symbol = ticker,
               TimeInForceDur = DAY,
               TradeAction = ''''\<rparr>
      in if Kind trx = ''SELL'' then req\<lparr>TradeAction := SELL\<rparr>
         else if Kind trx = ''BUY'' then req\<lparr>TradeAction := BUY\<rparr>
         else req)"

fun createOrderRequests_loop ::
  "(float64 \<Rightarrow> int64) \<Rightarrow> TradeLink \<Rightarrow> OrderRequest list \<Rightarrow> Transaction list \<Rightarrow> OrderRequest list" where
  "createOrderRequests_loop oor tlink orders [] = orders"
| "createOrderRequests_loop oor tlink orders (trx # rest) =
     createOrderRequests_loop oor tlink (orders @ [orderRequestOf oor tlink trx]) rest"

definition createOrderRequests ::
  "(float64 \<Rightarrow> int64) \<Rightarrow> TradeLink \<Rightarrow> PVRebalance \<Rightarrow> Balance \<Rightarrow> OrderRequest list" where
  "createOrderRequests oor tlink strategyPlan balance =
     createOrderRequests_loop oor tlink [] (Transactions strategyPlan)"

section \<open>The collaborators and the trace of a run\<close>

text \<open>
  The brokerage, the strategy engine (pv-api), the clock and the operator are outside the
  program. One run of \<open>Sync\<close> sees them through the record \<open>world\<close>: each field is
  the answer the collaborator gives to a request during that run, \<open>Inl\<close> for a transport
  error, an HTTP status of 400 or more, or an error list in the body. A collaborator gives the
  same answer to the same request throughout one run.
  \<^item> \<open>now\<close>: the reading of \<open>time.Now()\<close>;
  \<^item> \<open>GetAccount\<close>: \<open>api.GetAccount\<close>, which returns \<open>nil, nil\<close> (here \<open>Inr None\<close>) when no
    account has the requested id;
  \<^item> \<open>security\<close>: \<open>GET /v1/security/<query>/\<close> on pv-api;
  \<^item> \<open>rebalance\<close>: \<open>POST /v1/portfolio/<id>/rebalance\<close> on pv-api, with the
    \<open>AllocationOnly\<close> flag, the positions and the price data of the body;
  \<^item> \<open>confirmInput\<close>: what \<open>fmt.Scanln\<close> stores into \<open>confirmInput\<close>;
  \<^item> \<open>outOfRange\<close>: the result of an \<open>int64\<close> conversion that is out of range.
\<close>

record world =
  now :: Time
  GetAccount :: "string \<Rightarrow> error + Account option"
  GetPositions :: "Account \<Rightarrow> error + Position list"
  GetBalances :: "Account \<Rightarrow> error + Balance"
  GetQuotes :: "string list \<Rightarrow> error + Quote list"
  PlaceGroupOrder :: "Account \<Rightarrow> OrderRequest list \<Rightarrow> error + Order list"
  security :: "string \<Rightarrow> error + PVSecurity"
  rebalance :: "string \<Rightarrow> bool \<Rightarrow> PVPosition list \<Rightarrow> (string \<rightharpoonup> float64) \<Rightarrow> error + PVRebalance"
  confirmInput :: string
  outOfRange :: "float64 \<Rightarrow> int64"

text \<open>
  What a run does to the outside is recorded as a list of events, in order: the requests it
  sends and what it prints for the operator. Log lines are not recorded.
\<close>

datatype event =
    CallGetAccount string
  | CallGetPositions
  | CallSecurity string
  | CallGetBalances
  | CallRebalance bool
  | CallGetQuotes "string list"
  | PrintPlan "OrderRequest list"
  | PrintCashLeft float64
  | AskConfirm
  | CallPlaceGroupOrder "OrderRequest list"
  | PrintOrders "Order list"

text \<open>A call of \<open>Sync\<close> returns an error or \<open>nil\<close> (\<open>Return None\<close>), or it panics.\<close>

datatype outcome = Return "error option" | Panic

section \<open>Planning\<close>

definition securityFromSymbol :: "world \<Rightarrow> string \<Rightarrow> event list \<times> (error + PVSecurity)" where
  "securityFromSymbol w symbol =
     (let query = ReplaceAll symbol (CHR ''.'') ''%2F''
      in ([CallSecurity query], security w query))"

text \<open>
  \<open>convertPositionsToPV\<close> sends the same request as \<open>securityFromSymbol\<close> for every
  position, and returns at the first error.
\<close>

fun convertPositionsToPV :: "world \<Rightarrow> Position list \<Rightarrow> event list \<times> (error + PVPosition list)" where
  "convertPositionsToPV w [] = ([], Inr [])"
| "convertPositionsToPV w (pos # rest) =
     (let symbol = ReplaceAll (Position.Symbol pos) (CHR ''.'') ''%2F''
      in case security w symbol of
           Inl err \<Rightarrow> ([CallSecurity symbol], Inl err)
         | Inr sec \<Rightarrow>
             (let myPos = \<lparr>PVPosition.CompositeFIGI = PVSecurity.CompositeFIGI sec,
                           PVPosition.Ticker = PVSecurity.Ticker sec,
                           PVPosition.Shares = float64_of_int64 (Position.Quantity pos)\<rparr>
              in case convertPositionsToPV w rest of
                   (evs, Inl err) \<Rightarrow> (CallSecurity symbol # evs, Inl err)
                 | (evs, Inr pvPos) \<Rightarrow> (CallSecurity symbol # evs, Inr (myPos # pvPos))))"

text \<open>
  The first loop of \<open>GetStrategy\<close>: the ticker of every member of the allocation, looked
  up by its identifier.
\<close>

fun allocationTickers :: "world \<Rightarrow> string list \<Rightarrow> event list \<times> (error + string list)" where
  "allocationTickers w [] = ([], Inr [])"
| "allocationTickers w (figi # rest) =
     (case securityFromSymbol w figi of
        (ev, Inl err) \<Rightarrow> (ev, Inl err)
      | (ev, Inr sec) \<Rightarrow>
          (let ticker = pvTicker2TradeStation (PVSecurity.Ticker sec)
           in case allocationTickers w rest of
                (evs, Inl err) \<Rightarrow> (ev @ evs, Inl err)
              | (evs, Inr tickers) \<Rightarrow> (ev @ evs, Inr (ticker # tickers))))"

text \<open>
  The reference price that \<open>GetStrategy\<close> computes from a quote,
  \<open>q.Bid + ((q.Ask - q.Bid) / 2)\<close>.
\<close>

definition referencePrice :: "Quote \<Rightarrow> float64" where
  "referencePrice q = fadd (Bid q) (fdiv2 (fsub (Ask q) (Bid q)))"

text \<open>
  The loop of \<open>GetStrategy\<close> over the quotes, which fills the map \<open>prices\<close>: one entry
  under the identifier of the quoted symbol and, for a quote of \<open>BRK.B\<close>, a second entry
  under the identifier of \<open>BRK.A\<close>. A failed lookup ends the loop with the error.
\<close>

fun pricesOfQuotes ::
  "world \<Rightarrow> (string \<rightharpoonup> float64) \<Rightarrow> Quote list \<Rightarrow> event list \<times> (error + (string \<rightharpoonup> float64))" where
  "pricesOfQuotes w prices [] = ([], Inr prices)"
| "pricesOfQuotes w prices (q # rest) =
     (case securityFromSymbol w (Quote.Symbol q) of
        (ev, Inl err) \<Rightarrow> (ev, Inl err)
      | (ev, Inr sec) \<Rightarrow>
          (let prices1 = prices(PVSecurity.CompositeFIGI sec \<mapsto> referencePrice q)
           in if Quote.Symbol q = ''BRK.B'' then
                (case securityFromSymbol w ''BRK.A'' of
                   (evA, Inl err) \<Rightarrow> (ev @ evA, Inl err)
                 | (evA, Inr secA) \<Rightarrow>
                     (case pricesOfQuotes w
                             (prices1(PVSecurity.CompositeFIGI secA \<mapsto> referencePrice q)) rest of
                        (evs, r) \<Rightarrow> (ev @ evA @ evs, r)))
              else
                (case pricesOfQuotes w prices1 rest of
                   (evs, r) \<Rightarrow> (ev @ evs, r))))"

text \<open>
  \<open>GetStrategy\<close>. The Go map \<open>tickerMap\<close> is a set of tickers; ranging over it gives
  each ticker once, in an order the language leaves open. The model lists the inserted
  tickers with \<open>remdups\<close>, which is one such order.
\<close>

definition GetStrategy ::
  "world \<Rightarrow> TradeLink \<Rightarrow> PVPosition list \<Rightarrow> Balance \<Rightarrow> event list \<times> (error + PVRebalance)" where
  "GetStrategy w tlink positions0 balance =
     (let positions = positions0 @
            [\<lparr>PVPosition.CompositeFIGI = ''$CASH'', PVPosition.Ticker = ''$CASH'',
              PVPosition.Shares = CashBalance balance\<rparr>]
      in case rebalance w (PortfolioID tlink) True [] Map.empty of
           Inl err \<Rightarrow> ([CallRebalance True], Inl err)
         | Inr result \<Rightarrow>
             (case allocationTickers w (map fst (Members (Allocation result))) of
                (evs1, Inl err) \<Rightarrow> (CallRebalance True # evs1, Inl err)
              | (evs1, Inr allocTickers) \<Rightarrow>
                  (let posTickers = map (\<lambda>pos. pvTicker2TradeStation (PVPosition.Ticker pos))
                                      (filter (\<lambda>pos. PVPosition.Ticker pos \<noteq> ''$CASH'') positions);
                       tickers = remdups (allocTickers @ posTickers)
                   in case GetQuotes w tickers of
                        Inl err \<Rightarrow> (CallRebalance True # evs1 @ [CallGetQuotes tickers], Inl err)
                      | Inr quotes \<Rightarrow>
                          (case pricesOfQuotes w Map.empty quotes of
                             (evs2, Inl err) \<Rightarrow>
                               (CallRebalance True # evs1 @ [CallGetQuotes tickers] @ evs2, Inl err)
                           | (evs2, Inr prices) \<Rightarrow>
                               (CallRebalance True # evs1 @ [CallGetQuotes tickers] @ evs2
                                  @ [CallRebalance False],
                                rebalance w (PortfolioID tlink) False positions prices)))))"

section \<open>Sync\<close>

text \<open>
  The loop of \<open>Sync\<close> that computes the figure printed as \<open>Cash Left\<close>: every request
  whose action is \<open>BUY\<close> lowers it by limit price times quantity, every other request
  raises it.
\<close>

fun cashLeft_loop :: "float64 \<Rightarrow> OrderRequest list \<Rightarrow> float64" where
  "cashLeft_loop cashLeft [] = cashLeft"
| "cashLeft_loop cashLeft (req # rest) =
     cashLeft_loop
       (if TradeAction req = ''BUY''
        then fsub cashLeft (fmul (LimitPrice req) (float64_of_int64 (OrderRequest.Quantity req)))
        else fadd cashLeft (fmul (LimitPrice req) (float64_of_int64 (OrderRequest.Quantity req))))
       rest"

text \<open>
  \<open>Sync\<close> from the account lookup to the strategy plan. Every failed step returns its
  error. When \<open>GetAccount\<close> finds no account the nil pointer is dereferenced by
  \<open>account.GetPositions()\<close>.
\<close>

definition Sync_plan ::
  "world \<Rightarrow> TradeLink \<Rightarrow> event list \<times> (outcome + Account \<times> Balance \<times> PVRebalance)" where
  "Sync_plan w tlink =
     (case GetAccount w (TradeLink.AccountID tlink) of
        Inl err \<Rightarrow> ([CallGetAccount (TradeLink.AccountID tlink)], Inl (Return (Some err)))
      | Inr None \<Rightarrow> ([CallGetAccount (TradeLink.AccountID tlink)], Inl Panic)
      | Inr (Some account) \<Rightarrow>
          (case GetPositions w account of
             Inl err \<Rightarrow>
               ([CallGetAccount (TradeLink.AccountID tlink), CallGetPositions],
                Inl (Return (Some err)))
           | Inr positions \<Rightarrow>
               (case convertPositionsToPV w positions of
                  (evs1, Inl err) \<Rightarrow>
                    ([CallGetAccount (TradeLink.AccountID tlink), CallGetPositions] @ evs1,
                     Inl (Return (Some err)))
                | (evs1, Inr pvPositions) \<Rightarrow>
                    (case GetBalances w account of
                       Inl err \<Rightarrow>
                         ([CallGetAccount (TradeLink.AccountID tlink), CallGetPositions] @ evs1
                            @ [CallGetBalances],
                          Inl (Return (Some err)))
                     | Inr balance \<Rightarrow>
                         (case GetStrategy w tlink pvPositions balance of
                            (evs2, Inl err) \<Rightarrow>
                              ([CallGetAccount (TradeLink.AccountID tlink), CallGetPositions] @ evs1
                                 @ [CallGetBalances] @ evs2,
                               Inl (Return (Some err)))
                          | (evs2, Inr strategyPlan) \<Rightarrow>
                              ([CallGetAccount (TradeLink.AccountID tlink), CallGetPositions] @ evs1
                                 @ [CallGetBalances] @ evs2,
                               Inr (account, balance, strategyPlan)))))))"

text \<open>
  \<open>Sync\<close> from the order requests to the end: the plan and the cash figure are printed,
  the operator is asked unless \<open>autoConfirm\<close> is set, and the group order is placed. An
  error of \<open>PlaceGroupOrder\<close> is logged; the code goes on to print the (then empty) list of
  orders and returns \<open>nil\<close>.
\<close>

definition Sync_submit :: "world \<Rightarrow> Account \<Rightarrow> OrderRequest list \<Rightarrow> event list \<times> outcome" where
  "Sync_submit w account orderReqs =
     (case PlaceGroupOrder w account orderReqs of
        Inl err \<Rightarrow> ([CallPlaceGroupOrder orderReqs, PrintOrders []], Return None)
      | Inr orders \<Rightarrow> ([CallPlaceGroupOrder orderReqs, PrintOrders orders], Return None))"

definition Sync_execute ::
  "world \<Rightarrow> TradeLink \<Rightarrow> bool \<Rightarrow> Account \<Rightarrow> Balance \<Rightarrow> PVRebalance \<Rightarrow> event list \<times> outcome" where
  "Sync_execute w tlink autoConfirm account balance strategyPlan =
     (let orderReqs = createOrderRequests (outOfRange w) tlink strategyPlan balance;
          cashLeft = cashLeft_loop (CashBalance balance) orderReqs;
          shown = [PrintPlan orderReqs, PrintCashLeft cashLeft]
      in if autoConfirm then
           (case Sync_submit w account orderReqs of (evs, out) \<Rightarrow> (shown @ evs, out))
         else if ToUpper (confirmInput w) = ''Y'' then
           (case Sync_submit w account orderReqs of (evs, out) \<Rightarrow> (shown @ [AskConfirm] @ evs, out))
         else (shown @ [AskConfirm], Return (Some ''user did not confirm transactions'')))"

definition tradeDateNotArrived :: "world \<Rightarrow> TradeLink \<Rightarrow> bool" where
  "tradeDateNotArrived w tlink =
     (LastTradeDate tlink \<noteq> zeroTime \<and> now w < TradeLink.NextTradeDate tlink)"

definition Sync :: "world \<Rightarrow> TradeLink \<Rightarrow> bool \<Rightarrow> event list \<times> outcome" where
  "Sync w tlink autoConfirm =
     (if tradeDateNotArrived w tlink then ([], Return None)
      else case Sync_plan w tlink of
             (evs, Inl out) \<Rightarrow> (evs, out)
           | (evs, Inr (account, balance, strategyPlan)) \<Rightarrow>
               (case Sync_execute w tlink autoConfirm account balance strategyPlan of
                  (evs', out) \<Rightarrow> (evs @ evs', out)))"

section \<open>Vocabulary of the properties\<close>

text \<open>The identifier under which pv-api knows a symbol, if the lookup succeeds.\<close>

definition identifierOf :: "world \<Rightarrow> string \<Rightarrow> string option" where
  "identifierOf w symbol =
     (case snd (securityFromSymbol w symbol) of
        Inl err \<Rightarrow> None
      | Inr sec \<Rightarrow> Some (PVSecurity.CompositeFIGI sec))"

text \<open>
  A quote agrees with the price \<open>v\<close> for the identifier \<open>k\<close> when every entry that the
  loop over the quotes writes under \<open>k\<close> for this quote has the value \<open>v\<close>.
\<close>

definition agree :: "world \<Rightarrow> string \<Rightarrow> float64 \<Rightarrow> Quote \<Rightarrow> bool" where
  "agree w k v q =
     ((identifierOf w (Quote.Symbol q) = Some k \<longrightarrow> referencePrice q = v) \<and>
      (Quote.Symbol q = ''BRK.B'' \<and> identifierOf w ''BRK.A'' = Some k \<longrightarrow> referencePrice q = v))"

text \<open>
  The answers of the collaborators name every security once: the quotes are for distinct
  symbols, none of them is \<open>BRK.A\<close> (the tickers sent to the brokerage have passed
  \<open>pvTicker2TradeStation\<close>), and pv-api gives distinct identifiers to the quoted symbols
  and \<open>BRK.A\<close>.
\<close>

definition oneIdentifierEach :: "world \<Rightarrow> Quote list \<Rightarrow> bool" where
  "oneIdentifierEach w quotes =
     (distinct (map Quote.Symbol quotes) \<and> ''BRK.A'' \<notin> set (map Quote.Symbol quotes) \<and>
      inj_on (identifierOf w) (set (''BRK.A'' # map Quote.Symbol quotes)))"

text \<open>The events of the planning steps: requests for data, nothing shown, nothing placed.\<close>

fun planningEvent :: "event \<Rightarrow> bool" where
  "planningEvent (PrintPlan orderReqs) = False"
| "planningEvent (PrintCashLeft cashLeft) = False"
| "planningEvent AskConfirm = False"
| "planningEvent (CallPlaceGroupOrder orderReqs) = False"
| "planningEvent (PrintOrders orders) = False"
| "planningEvent e = True"

text \<open>
  The cost of a request in exact arithmetic, limit price times quantity, and the run of the
  cash loop in which no operation rounds: the conversion of the quantity, the product and the
  new cash figure are all \<open>float64\<close> values as they stand.
\<close>

definition exactCost :: "OrderRequest \<Rightarrow> real" where
  "exactCost req =
     (case LimitPrice req of
        Finite p \<Rightarrow> p * real_of_int (sint (OrderRequest.Quantity req))
      | _ \<Rightarrow> 0)"

fun ledgerExact :: "real \<Rightarrow> OrderRequest list \<Rightarrow> bool" where
  "ledgerExact c [] = True"
| "ledgerExact c (req # rest) =
     (case LimitPrice req of
        Finite p \<Rightarrow>
          (let n = real_of_int (sint (OrderRequest.Quantity req));
               t = p * n;
               c' = (if TradeAction req = ''BUY'' then c - t else c + t)
           in round64 n = Finite n \<and> round64 t = Finite t \<and> round64 c' = Finite c' \<and>
              ledgerExact c' rest)
      | _ \<Rightarrow> False)"

section \<open>Example data\<close>

text \<open>
  An account with ten shares of AAPL and 1000 in cash, a directory of four securities, and
  a plan that sells the AAPL shares and buys MSFT. The example world is open in the
  transactions of the plan, in the answer of the operator and in the answer of the
  brokerage to the group order.
\<close>

definition exampleLink :: TradeLink where
  "exampleLink = \<lparr>PortfolioID = ''pf-1'', TradeLink.AccountID = ''SIM001'',
     LastTradeDate = zeroTime, TradeLink.NextTradeDate = zeroTime\<rparr>"

definition exampleTrx :: "string \<Rightarrow> string \<Rightarrow> float64 \<Rightarrow> float64 \<Rightarrow> Transaction" where
  "exampleTrx kind ticker shares price =
     \<lparr>ID = '''', Cleared = False, Commission = Finite 0, Transaction.CompositeFIGI = '''',
      Transaction.Date = '''', GainLoss = Finite 0, Kind = kind, Memo = '''', Predicted = False,
      PricePerShare = price, Transaction.Shares = shares, SourceID = '''',
      TaxDisposition = '''', Transaction.Ticker = ticker, TotalValue = fmul shares price\<rparr>"

definition examplePlan :: "Transaction list \<Rightarrow> PVRebalance" where
  "examplePlan trxs =
     \<lparr>Allocation = \<lparr>Allocation.Date = '''', Members = []\<rparr>,
      PVRebalance.NextTradeDate = '''', Transactions = trxs\<rparr>"

definition exampleBalance :: Balance where
  "exampleBalance = \<lparr>CashBalance = Finite 1000\<rparr>"

text \<open>An out-of-range conversion gives the least \<open>int64\<close>, as on amd64.\<close>

definition amd64 :: "float64 \<Rightarrow> int64" where
  "amd64 x = word_of_int (- (2 ^ 63))"

definition exampleAccount :: Account where
  "exampleAccount = \<lparr>Account.AccountID = ''SIM001''\<rparr>"

definition exampleSecurity :: "string \<Rightarrow> error + PVSecurity" where
  "exampleSecurity query =
     (if query = ''AAPL'' \<or> query = ''BBG000B9XRY4''
        then Inr \<lparr>PVSecurity.CompositeFIGI = ''BBG000B9XRY4'', PVSecurity.Ticker = ''AAPL''\<rparr>
      else if query = ''MSFT'' \<or> query = ''BBG000BPH459''
        then Inr \<lparr>PVSecurity.CompositeFIGI = ''BBG000BPH459'', PVSecurity.Ticker = ''MSFT''\<rparr>
      else if query = ''BRK%2FB'' \<or> query = ''BBG000DWG505''
        then Inr \<lparr>PVSecurity.CompositeFIGI = ''BBG000DWG505'', PVSecurity.Ticker = ''BRK/B''\<rparr>
      else if query = ''BRK%2FA'' \<or> query = ''BBG000DWCFL4''
        then Inr \<lparr>PVSecurity.CompositeFIGI = ''BBG000DWCFL4'', PVSecurity.Ticker = ''BRK/A''\<rparr>
      else Inl ''404 status code returned from pvapi'')"

definition exampleQuotes :: "Quote list" where
  "exampleQuotes =
     [\<lparr>Ask = Finite 151, Bid = Finite 149, Quote.Symbol = ''AAPL''\<rparr>,
      \<lparr>Ask = Finite 11, Bid = Finite 9, Quote.Symbol = ''MSFT''\<rparr>]"

definition exampleWorld :: "Transaction list \<Rightarrow> string \<Rightarrow> error + Order list \<Rightarrow> world" where
  "exampleWorld trxs answer placed =
     \<lparr>now = 1000,
      GetAccount = (\<lambda>accountID. Inr (Some exampleAccount)),
      GetPositions = (\<lambda>account. Inr [\<lparr>Position.Quantity = 10, Position.Symbol = ''AAPL''\<rparr>]),
      GetBalances = (\<lambda>account. Inr exampleBalance),
      GetQuotes = (\<lambda>tickers. Inr exampleQuotes),
      PlaceGroupOrder = (\<lambda>account orderReqs. placed),
      security = exampleSecurity,
      rebalance = (\<lambda>portfolioID allocationOnly positions prices.
         if allocationOnly
         then Inr \<lparr>Allocation = \<lparr>Allocation.Date = ''2023-01-03'', Members = [(''BBG000BPH459'', Finite 1)]\<rparr>,
                   PVRebalance.NextTradeDate = ''2023-02-01'', Transactions = []\<rparr>
         else Inr (examplePlan trxs)),
      confirmInput = answer,
      outOfRange = amd64\<rparr>"

text \<open>The requests of the planning steps in the example world.\<close>

definition examplePlanning :: "event list" where
  "examplePlanning =
     [CallGetAccount ''SIM001'', CallGetPositions, CallSecurity ''AAPL'', CallGetBalances,
      CallRebalance True, CallSecurity ''BBG000BPH459'', CallGetQuotes [''MSFT'', ''AAPL''],
      CallSecurity ''AAPL'', CallSecurity ''MSFT'', CallRebalance False]"

definition exampleTrxs :: "Transaction list" where
  "exampleTrxs =
     [exampleTrx ''SELL'' ''AAPL'' (Finite 10) (Finite 150),
      exampleTrx ''BUY'' ''MSFT'' (Finite 100) (Finite 10)]"

definition exampleOrderReqs :: "OrderRequest list" where
  "exampleOrderReqs =
     [\<lparr>OrderRequest.AccountID = ''SIM001'', LimitPrice = Finite 150, OrderConfirmID = '''',
       OrderType = LIMIT, OrderRequest.Quantity = 10, StopPrice = Finite 0,
       OrderRequest.Symbol = ''AAPL'', TimeInForceDur = DAY, TradeAction = SELL\<rparr>,
      \<lparr>OrderRequest.AccountID = ''SIM001'', LimitPrice = Finite 10, OrderConfirmID = '''',
       OrderType = LIMIT, OrderRequest.Quantity = 100, StopPrice = Finite 0,
       OrderRequest.Symbol = ''MSFT'', TimeInForceDur = DAY, TradeAction = BUY\<rparr>]"

text \<open>The brokerage reports the sale as filled and 60 of the 100 shares as bought.\<close>

definition partialFill :: "Order list" where
  "partialFill =
     [\<lparr>Legs = [\<lparr>QuantityOrdered = 10, ExecQuantity = 10, QuantityRemaining = 0,
                 BuyOrSell = ''Sell'', OrderLeg.Symbol = ''AAPL''\<rparr>],
       OrderID = ''1001'', StatusDescription = ''Filled''\<rparr>,
      \<lparr>Legs = [\<lparr>QuantityOrdered = 100, ExecQuantity = 60, QuantityRemaining = 40,
                 BuyOrSell = ''Buy'', OrderLeg.Symbol = ''MSFT''\<rparr>],
       OrderID = ''1002'', StatusDescription = ''Partial Fill (Alive)''\<rparr>]"

definition unknownKindTrxs :: "Transaction list" where
  "unknownKindTrxs =
     [exampleTrx ''BUY'' ''MSFT'' (Finite 100) (Finite 10),
      exampleTrx ''HOLD'' ''AAPL'' (Finite 5) (Finite 20)]"

definition negativeSharesPlan :: PVRebalance where
  "negativeSharesPlan = examplePlan [exampleTrx ''BUY'' ''MSFT'' (Finite (- 3 / 2)) (Finite 10)]"

text \<open>
  The share quantities 0, 0.999, 1.5 and 1.999 as \<open>float64\<close> values, that is, rounded as
  the decoder of the plan rounds the decimal text.
\<close>

definition boundaryPlan :: PVRebalance where
  "boundaryPlan = examplePlan
     [exampleTrx ''BUY'' ''MSFT'' (round64 0) (Finite 10),
      exampleTrx ''SELL'' ''MSFT'' (round64 0) (Finite 10),
      exampleTrx ''BUY'' ''MSFT'' (round64 (999 / 1000)) (Finite 10),
      exampleTrx ''SELL'' ''MSFT'' (round64 (999 / 1000)) (Finite 10),
      exampleTrx ''BUY'' ''MSFT'' (round64 (3 / 2)) (Finite 10),
      exampleTrx ''SELL'' ''MSFT'' (round64 (3 / 2)) (Finite 10),
      exampleTrx ''BUY'' ''MSFT'' (round64 (1999 / 1000)) (Finite 10),
      exampleTrx ''SELL'' ''MSFT'' (round64 (1999 / 1000)) (Finite 10),
      exampleTrx ''BUY'' ''MSFT'' (round64 (- 3 / 2)) (Finite 10)]"

definition brkQuotes :: "Quote list" where
  "brkQuotes =
     [\<lparr>Ask = Finite 151, Bid = Finite 149, Quote.Symbol = ''AAPL''\<rparr>,
      \<lparr>Ask = Finite 302, Bid = Finite 300, Quote.Symbol = ''BRK.B''\<rparr>]"

definition brkPrices :: "string \<rightharpoonup> float64" where
  "brkPrices =
     [''BBG000B9XRY4'' \<mapsto> Finite 150, ''BBG000DWG505'' \<mapsto> Finite 301,
      ''BBG000DWCFL4'' \<mapsto> Finite 301]"

text \<open>Two quotes for the same symbol.\<close>

definition twoAaplQuotes :: "Quote list" where
  "twoAaplQuotes =
     [\<lparr>Ask = Finite 151, Bid = Finite 149, Quote.Symbol = ''AAPL''\<rparr>,
      \<lparr>Ask = Finite 102, Bid = Finite 100, Quote.Symbol = ''AAPL''\<rparr>]"

text \<open>A quote with the bid 10.01 and the ask 10.02, as the decoder rounds them.\<close>

definition centQuote :: Quote where
  "centQuote = \<lparr>Ask = round64 (1002 / 100), Bid = round64 (1001 / 100), Quote.Symbol = ''MSFT''\<rparr>"

text \<open>Quotes for both share classes.\<close>

definition brkBothQuotes :: "Quote list" where
  "brkBothQuotes =
     [\<lparr>Ask = Finite 302, Bid = Finite 300, Quote.Symbol = ''BRK.B''\<rparr>,
      \<lparr>Ask = Finite 450002, Bid = Finite 450000, Quote.Symbol = ''BRK.A''\<rparr>]"

text \<open>
  An account with \<open>10 ^ 16\<close> in cash and a plan that buys one share at the price 1,
  twice.
\<close>

definition largeBalance :: Balance where
  "largeBalance = \<lparr>CashBalance = Finite 10000000000000000\<rparr>"

definition twoBuys :: "Transaction list" where
  "twoBuys =
     [exampleTrx ''BUY'' ''MSFT'' (Finite 1) (Finite 1),
      exampleTrx ''BUY'' ''MSFT'' (Finite 1) (Finite 1)]"

definition twoBuyReqs :: "OrderRequest list" where
  "twoBuyReqs =
     [\<lparr>OrderRequest.AccountID = ''SIM001'', LimitPrice = Finite 1, OrderConfirmID = '''',
       OrderType = LIMIT, OrderRequest.Quantity = 1, StopPrice = Finite 0,
       OrderRequest.Symbol = ''MSFT'', TimeInForceDur = DAY, TradeAction = BUY\<rparr>,
      \<lparr>OrderRequest.AccountID = ''SIM001'', LimitPrice = Finite 1, OrderConfirmID = '''',
       OrderType = LIMIT, OrderRequest.Quantity = 1, StopPrice = Finite 0,
       OrderRequest.Symbol = ''MSFT'', TimeInForceDur = DAY, TradeAction = BUY\<rparr>]"

definition largeWorld :: world where
  "largeWorld = (exampleWorld twoBuys ''n'' (Inr []))\<lparr>GetBalances := (\<lambda>account. Inr largeBalance)\<rparr>"

section \<open>Properties of the floating-point operations\<close>

lemma binade_bounds:
  assumes "x \<noteq> 0"
  shows "2 powi (binade x) \<le> \<bar>x\<bar> \<and> \<bar>x\<bar> < 2 powi (binade x + 1)"
proof (cases "1 \<le> \<bar>x\<bar>")
  case True
  define n where "n = \<lfloor>\<bar>x\<bar>\<rfloor>"
  have n: "0 < n" using True by (simp add: n_def)
  define b where "b = bitlen n"
  from bitlen_bounds [OF n] have lo: "2 ^ nat (b - 1) \<le> n" and hi: "n < 2 ^ nat b"
    by (simp_all add: b_def)
  have b1: "1 \<le> b" using n by (simp add: b_def bitlen_alt_def)
  have e: "binade x = b - 1" using True by (simp add: binade_def n_def b_def)
  have "(2::real) powi (b - 1) = 2 ^ nat (b - 1)" using b1 by (simp add: power_int_def)
  also have "\<dots> = of_int (2 ^ nat (b - 1))" by simp
  also have "\<dots> \<le> of_int n" using lo by (simp only: of_int_le_iff)
  also have "\<dots> \<le> \<bar>x\<bar>" by (simp add: n_def)
  finally have 1: "2 powi (binade x) \<le> \<bar>x\<bar>" by (simp add: e)
  have "\<bar>x\<bar> < of_int (n + 1)" by (simp add: n_def)
  also have "\<dots> \<le> of_int (2 ^ nat b)"
  proof -
    have "n + 1 \<le> 2 ^ nat b" using hi by simp
    then show ?thesis by (simp only: of_int_le_iff)
  qed
  also have "\<dots> = (2::real) powi b" using b1 by (simp add: power_int_def)
  finally have 2: "\<bar>x\<bar> < 2 powi (binade x + 1)" by (simp add: e)
  from 1 2 show ?thesis ..
next
  case False
  define y where "y = 1 / \<bar>x\<bar>"
  have x0: "0 < \<bar>x\<bar>" using assms by simp
  have y1: "1 < y" using False x0 by (simp add: y_def)
  define n where "n = \<lfloor>y\<rfloor>"
  have n: "0 < n" using y1 by (simp add: n_def)
  define k where "k = bitlen n - 1"
  from bitlen_bounds [OF n] have lo: "2 ^ nat k \<le> n" and hi: "n < 2 ^ nat (k + 1)"
    by (simp_all add: k_def)
  have k0: "0 \<le> k" using n by (simp add: k_def bitlen_alt_def)
  have "(2::real) ^ nat k = of_int (2 ^ nat k)" by simp
  also have "\<dots> \<le> of_int n" using lo by (simp only: of_int_le_iff)
  also have "\<dots> \<le> y" by (simp add: n_def)
  finally have ylo: "2 ^ nat k \<le> y" .
  have "y < of_int (n + 1)" by (simp add: n_def)
  also have "\<dots> \<le> of_int (2 ^ nat (k + 1))"
  proof -
    have "n + 1 \<le> 2 ^ nat (k + 1)" using hi by simp
    then show ?thesis by (simp only: of_int_le_iff)
  qed
  finally have yhi: "y < 2 ^ nat (k + 1)" by simp
  have xy: "\<bar>x\<bar> = 1 / y" using x0 by (simp add: y_def)
  have y0: "0 < y" using y1 by simp
  have xhi: "\<bar>x\<bar> \<le> 1 / 2 ^ nat k"
    unfolding xy using ylo y0 by (simp add: frac_le)
  have xlo: "1 / 2 ^ nat (k + 1) < \<bar>x\<bar>"
    unfolding xy using yhi y0 by (simp add: frac_less2)
  have pk: "(2::real) powi k = 2 ^ nat k" using k0 by (simp add: power_int_def)
  have pmk: "(2::real) powi (- k) = 1 / 2 ^ nat k"
    using k0 by (simp add: power_int_minus pk inverse_eq_divide)
  have pmk1: "(2::real) powi (- k - 1) = 1 / 2 ^ nat (k + 1)"
  proof -
    have "- k - 1 = - (k + 1)" by simp
    then have "(2::real) powi (- k - 1) = inverse (2 powi (k + 1))"
      by (simp only: power_int_minus)
    also have "(2::real) powi (k + 1) = 2 ^ nat (k + 1)" using k0 by (simp add: power_int_def)
    finally show ?thesis by (simp add: inverse_eq_divide)
  qed
  show ?thesis
  proof (cases "\<bar>x\<bar> * 2 powi k = 1")
    case True
    then have e: "binade x = - k"
      using False by (simp add: binade_def Let_def y_def n_def k_def)
    have "\<bar>x\<bar> = 1 / 2 ^ nat k" using True by (simp add: pk field_simps)
    then have eq: "\<bar>x\<bar> = 2 powi (- k)" by (simp add: pmk)
    then have "2 powi (- k) \<le> \<bar>x\<bar>" by simp
    moreover have "\<bar>x\<bar> < 2 powi (- k + 1)"
      unfolding eq by (rule power_int_strict_increasing) simp_all
    ultimately show ?thesis by (simp add: e)
  next
    case neq: False
    then have e: "binade x = - k - 1"
      using False by (simp add: binade_def Let_def y_def n_def k_def)
    have "\<bar>x\<bar> \<noteq> 1 / 2 ^ nat k" using neq by (simp add: pk field_simps)
    with xhi have "\<bar>x\<bar> < 1 / 2 ^ nat k" by simp
    then have "\<bar>x\<bar> < 2 powi (- k - 1 + 1)" by (simp add: pmk)
    moreover have "2 powi (- k - 1) \<le> \<bar>x\<bar>" using xlo by (simp add: pmk1)
    ultimately show ?thesis by (simp add: e)
  qed
qed

lemma binade_eqI:
  assumes "2 powi e \<le> \<bar>x\<bar>" and "\<bar>x\<bar> < 2 powi (e + 1)"
  shows "binade x = e"
proof -
  have "(0::real) < 2 powi e" by simp
  with assms(1) have "0 < \<bar>x\<bar>" by linarith
  then have "x \<noteq> 0" by simp
  from binade_bounds [OF this]
  have lo: "2 powi (binade x) \<le> \<bar>x\<bar>" and hi: "\<bar>x\<bar> < 2 powi (binade x + 1)"
    by simp_all
  have "binade x < e + 1"
  proof (rule ccontr)
    assume "\<not> binade x < e + 1"
    then have "(2::real) powi (e + 1) \<le> 2 powi (binade x)"
      by (intro power_int_increasing) simp_all
    with lo assms(2) show False by simp
  qed
  moreover have "e < binade x + 1"
  proof (rule ccontr)
    assume "\<not> e < binade x + 1"
    then have "(2::real) powi (binade x + 1) \<le> 2 powi e"
      by (intro power_int_increasing) simp_all
    with hi assms(1) show False by simp
  qed
  ultimately show ?thesis by simp
qed

lemma nearest64_eval:
  assumes "2 powi e \<le> \<bar>x\<bar>" and "\<bar>x\<bar> < 2 powi (e + 1)" and "- 1022 \<le> e"
  shows "nearest64 x = of_int (roundEven (x / 2 powi (e - 52))) * 2 powi (e - 52)"
proof -
  have "(0::real) < 2 powi e" by simp
  with assms(1) have "0 < \<bar>x\<bar>" by linarith
  then have "x \<noteq> 0" by simp
  moreover have "binade x = e" using assms(1,2) by (rule binade_eqI)
  ultimately show ?thesis using assms(3) by (simp add: nearest64_def Let_def max_def)
qed

lemma roundEven_of_int: "roundEven (of_int m) = m"
  by (simp add: roundEven_def Let_def)

lemma nearest64_of_int:
  assumes "\<bar>n\<bar> < 2 ^ 53"
  shows "nearest64 (of_int n) = of_int n"
proof (cases "n = 0")
  case True
  then show ?thesis by (simp add: nearest64_def)
next
  case False
  define x :: real where "x = of_int n"
  define e where "e = binade x"
  have x0: "x \<noteq> 0" using False by (simp add: x_def)
  from binade_bounds [OF x0]
  have lo: "2 powi e \<le> \<bar>x\<bar>" and hi: "\<bar>x\<bar> < 2 powi (e + 1)"
    by (simp_all add: e_def)
  have x1: "1 \<le> \<bar>x\<bar>" using False by (simp add: x_def flip: of_int_abs)
  have x53: "\<bar>x\<bar> < 2 ^ 53"
  proof -
    have "\<bar>x\<bar> = of_int \<bar>n\<bar>" by (simp add: x_def)
    also have "\<dots> < of_int (2 ^ 53)" using assms by (simp only: of_int_less_iff)
    finally show ?thesis by simp
  qed
  have e0: "0 \<le> e"
  proof (rule ccontr)
    assume "\<not> 0 \<le> e"
    then have "(2::real) powi (e + 1) \<le> 2 powi 0"
      by (intro power_int_increasing) simp_all
    with hi x1 show False by simp
  qed
  have e52: "e \<le> 52"
  proof (rule ccontr)
    assume "\<not> e \<le> 52"
    then have "(2::real) powi 53 \<le> 2 powi e"
      by (intro power_int_increasing) simp_all
    with lo x53 show False by simp
  qed
  define j where "j = nat (52 - e)"
  have q: "(2::real) powi (e - 52) = 1 / 2 ^ j"
  proof -
    have "e - 52 = - int j" using e52 by (simp add: j_def)
    then show ?thesis by (simp add: power_int_minus inverse_eq_divide)
  qed
  have "x / 2 powi (e - 52) = of_int (n * 2 ^ j)"
    by (simp add: q x_def)
  then have "roundEven (x / 2 powi (e - 52)) = n * 2 ^ j"
    by (simp only: roundEven_of_int)
  moreover have "nearest64 x = of_int (roundEven (x / 2 powi (e - 52))) * 2 powi (e - 52)"
    using lo hi e0 by (intro nearest64_eval) simp_all
  ultimately show ?thesis by (simp add: q x_def)
qed

lemma round64_of_int:
  assumes "\<bar>n\<bar> < 2 ^ 53"
  shows "round64 (of_int n) = Finite (of_int n)"
proof -
  have "\<bar>real_of_int n\<bar> < 2 ^ 53"
  proof -
    have "\<bar>real_of_int n\<bar> = of_int \<bar>n\<bar>" by simp
    also have "\<dots> < of_int (2 ^ 53)" using assms by (simp only: of_int_less_iff)
    finally show ?thesis by simp
  qed
  then have "real_of_int n < 2 ^ 1024" "- (2 ^ 1024) < real_of_int n"
    by (auto simp: abs_less_iff intro: less_trans)
  then show ?thesis
    by (simp add: round64_def nearest64_of_int [OF assms] Let_def)
qed

lemma round64_numeral [simp]:
  "numeral k < (2::int) ^ 53 \<Longrightarrow> round64 (numeral k) = Finite (numeral k)"
  "numeral k < (2::int) ^ 53 \<Longrightarrow> round64 (- numeral k) = Finite (- numeral k)"
  "round64 0 = Finite 0"
  "round64 1 = Finite 1"
  using round64_of_int [of "numeral k"] round64_of_int [of "- numeral k"]
    round64_of_int [of 0] round64_of_int [of 1]
  by simp_all

lemma fsub_Finite [simp]: "fsub (Finite x) (Finite y) = round64 (x - y)"
  by (simp add: fsub_def)

text \<open>The decimal texts of the examples as \<open>float64\<close> values.\<close>

lemma round64_three_halves:
  "round64 (3 / 2) = Finite (3 / 2)" "round64 (- 3 / 2) = Finite (- 3 / 2)"
  "round64 (- (3 / 2)) = Finite (- (3 / 2))"
proof -
  have "nearest64 (3 / 2) = of_int (roundEven ((3 / 2) / 2 powi (0 - 52))) * 2 powi (0 - 52)"
    by (rule nearest64_eval) simp_all
  also have "\<dots> = 3 / 2"
    by (simp add: roundEven_def Let_def)
  finally show "round64 (3 / 2) = Finite (3 / 2)" by (simp add: round64_def)
  have "nearest64 (- 3 / 2) = of_int (roundEven ((- 3 / 2) / 2 powi (0 - 52))) * 2 powi (0 - 52)"
    by (rule nearest64_eval) simp_all
  also have "\<dots> = - 3 / 2"
    by (simp add: roundEven_def Let_def)
  finally show m: "round64 (- 3 / 2) = Finite (- 3 / 2)" by (simp add: round64_def)
  from m show "round64 (- (3 / 2)) = Finite (- (3 / 2))" by simp
qed

lemma round64_0999: "round64 (999 / 1000) = Finite (8998192055486251 / 9007199254740992)"
proof -
  have "nearest64 (999 / 1000) =
      of_int (roundEven ((999 / 1000) / 2 powi (- 1 - 52))) * 2 powi (- 1 - 52)"
    by (rule nearest64_eval) simp_all
  also have "\<dots> = 8998192055486251 / 9007199254740992"
    by (simp add: roundEven_def Let_def)
  finally show ?thesis by (simp add: round64_def)
qed

lemma round64_1999: "round64 (1999 / 1000) = Finite (4501347827556811 / 2251799813685248)"
proof -
  have "nearest64 (1999 / 1000) =
      of_int (roundEven ((1999 / 1000) / 2 powi (0 - 52))) * 2 powi (0 - 52)"
    by (rule nearest64_eval) simp_all
  also have "\<dots> = 4501347827556811 / 2251799813685248"
    by (simp add: roundEven_def Let_def)
  finally show ?thesis by (simp add: round64_def)
qed

lemma round64_1001: "round64 (1001 / 100) = Finite (5635129033747333 / 562949953421312)"
proof -
  have "nearest64 (1001 / 100) =
      of_int (roundEven ((1001 / 100) / 2 powi (3 - 52))) * 2 powi (3 - 52)"
    by (rule nearest64_eval) simp_all
  also have "\<dots> = 5635129033747333 / 562949953421312"
    by (simp add: roundEven_def Let_def)
  finally show ?thesis by (simp add: round64_def)
qed

lemma round64_1002: "round64 (1002 / 100) = Finite (5640758533281546 / 562949953421312)"
proof -
  have "nearest64 (1002 / 100) =
      of_int (roundEven ((1002 / 100) / 2 powi (3 - 52))) * 2 powi (3 - 52)"
    by (rule nearest64_eval) simp_all
  also have "\<dots> = 5640758533281546 / 562949953421312"
    by (simp add: roundEven_def Let_def)
  finally show ?thesis by (simp add: round64_def)
qed

text \<open>
  The reference price of the quote with bid 10.01 and ask 10.02: the difference and its half
  are exact, the final sum is rounded.
\<close>

lemma referencePrice_centQuote:
  "referencePrice centQuote = Finite (11275887567028880 / 1125899906842624)"
proof -
  have d: "round64 (5640758533281546 / 562949953421312 - 5635129033747333 / 562949953421312) =
      Finite (5629499534213 / 562949953421312)"
  proof -
    have "nearest64 (5629499534213 / 562949953421312) =
        of_int (roundEven ((5629499534213 / 562949953421312) / 2 powi (- 7 - 52))) * 2 powi (- 7 - 52)"
      by (rule nearest64_eval) simp_all
    also have "\<dots> = 5629499534213 / 562949953421312"
      by (simp add: roundEven_def Let_def)
    finally show ?thesis by (simp add: round64_def)
  qed
  have h: "round64 (5629499534213 / 562949953421312 / 2) = Finite (5629499534213 / 1125899906842624)"
  proof -
    have "nearest64 (5629499534213 / 1125899906842624) =
        of_int (roundEven ((5629499534213 / 1125899906842624) / 2 powi (- 8 - 52))) * 2 powi (- 8 - 52)"
      by (rule nearest64_eval) simp_all
    also have "\<dots> = 5629499534213 / 1125899906842624"
      by (simp add: roundEven_def Let_def)
    finally show ?thesis by (simp add: round64_def)
  qed
  have s: "round64 (5635129033747333 / 562949953421312 + 5629499534213 / 1125899906842624) =
      Finite (11275887567028880 / 1125899906842624)"
  proof -
    have "nearest64 (11275887567028879 / 1125899906842624) =
        of_int (roundEven ((11275887567028879 / 1125899906842624) / 2 powi (3 - 52))) * 2 powi (3 - 52)"
      by (rule nearest64_eval) simp_all
    also have "\<dots> = 11275887567028880 / 1125899906842624"
      by (simp add: roundEven_def Let_def)
    finally show ?thesis by (simp add: round64_def)
  qed
  show ?thesis
    by (simp only: referencePrice_def centQuote_def Quote.simps round64_1001 round64_1002
        fsub_Finite d fdiv2.simps h fadd.simps s)
qed

text \<open>
  The integer \<open>10 ^ 16 - 1\<close> lies halfway between the neighbouring \<open>float64\<close>
  values \<open>10 ^ 16 - 2\<close> and \<open>10 ^ 16\<close>; it is rounded to \<open>10 ^ 16\<close>, whose
  significand is even.
\<close>

lemma round64_tie: "round64 9999999999999999 = Finite 10000000000000000"
proof -
  have "nearest64 9999999999999999 =
      of_int (roundEven (9999999999999999 / 2 powi (53 - 52))) * 2 powi (53 - 52)"
    by (rule nearest64_eval) simp_all
  also have "\<dots> = 10000000000000000"
    by (simp add: roundEven_def Let_def)
  finally show ?thesis by (simp add: round64_def)
qed

section \<open>Properties of the library functions\<close>

lemma char_of_89: "char_of (89::nat) = CHR ''Y''"
  by code_simp

lemma upper_char_Y: "upper_char c = CHR ''Y'' \<longleftrightarrow> c = CHR ''y'' \<or> c = CHR ''Y''"
proof -
  have y: "of_char (CHR ''y'') = (121::nat)" "of_char (CHR ''Y'') = (89::nat)" by simp_all
  show ?thesis
  proof (cases "97 \<le> (of_char c :: nat) \<and> (of_char c :: nat) \<le> 122")
    case True
    then have u: "upper_char c = char_of (of_char c - 32 :: nat)"
      by (simp add: upper_char_def Let_def)
    have "char_of (of_char c - 32 :: nat) = CHR ''Y'' \<longleftrightarrow> (of_char c :: nat) - 32 = 89"
    proof
      assume "char_of (of_char c - 32 :: nat) = CHR ''Y''"
      then have "of_char (char_of (of_char c - 32 :: nat)) = (of_char (CHR ''Y'') :: nat)" by simp
      then have "((of_char c :: nat) - 32) mod 256 = 89" by (simp add: of_char_of)
      moreover have "(of_char c :: nat) - 32 < 256" using True by linarith
      ultimately show "(of_char c :: nat) - 32 = 89" by simp
    next
      assume "(of_char c :: nat) - 32 = 89"
      then show "char_of (of_char c - 32 :: nat) = CHR ''Y''" by (simp add: char_of_89)
    qed
    also have "\<dots> \<longleftrightarrow> (of_char c :: nat) = 121" using True by auto
    also have "\<dots> \<longleftrightarrow> c = CHR ''y''"
      using y(1) by (metis of_char_eq_iff)
    finally have "upper_char c = CHR ''Y'' \<longleftrightarrow> c = CHR ''y''" using u by simp
    moreover have "c \<noteq> CHR ''Y''" using True y(2) by auto
    ultimately show ?thesis by simp
  next
    case False
    then have "upper_char c = c" by (auto simp: upper_char_def Let_def)
    moreover have "c \<noteq> CHR ''y''" using False y(1) by auto
    ultimately show ?thesis by simp
  qed
qed

lemma ToUpper_Y: "ToUpper s = ''Y'' \<longleftrightarrow> s = ''y'' \<or> s = ''Y''"
proof (cases s)
  case Nil
  then show ?thesis by (simp add: ToUpper_def)
next
  case (Cons c cs)
  then show ?thesis by (cases cs) (auto simp: ToUpper_def upper_char_Y)
qed

section \<open>Properties of order construction\<close>

lemma createOrderRequests_loop_map:
  "createOrderRequests_loop oor tlink orders trxs = orders @ map (orderRequestOf oor tlink) trxs"
  by (induction trxs arbitrary: orders) simp_all

lemma createOrderRequests_map:
  "createOrderRequests oor tlink strategyPlan balance =
     map (orderRequestOf oor tlink) (Transactions strategyPlan)"
  by (simp add: createOrderRequests_def createOrderRequests_loop_map)

lemma sint_int64_of_float64:
  assumes "int64_range (trunc x)"
  shows "sint (int64_of_float64 oor (Finite x)) = trunc x"
proof -
  have "signed_take_bit 63 (trunc x) = trunc x"
    using assms by (simp add: int64_range_def signed_take_bit_int_eq_self)
  then show ?thesis
    using assms by (simp add: int64_of_float64_def sint_sbintrunc')
qed

lemma Quantity_orderRequestOf:
  "OrderRequest.Quantity (orderRequestOf oor tlink trx) = int64_of_float64 oor (Transaction.Shares trx)"
  by (simp add: orderRequestOf_def Let_def)

lemma TradeAction_orderRequestOf:
  "Kind trx = ''BUY'' \<or> Kind trx = ''SELL'' \<Longrightarrow> TradeAction (orderRequestOf oor tlink trx) = Kind trx"
  by (auto simp: orderRequestOf_def Let_def)

lemma createOrderRequests_example:
  "createOrderRequests amd64 exampleLink (examplePlan exampleTrxs) exampleBalance = exampleOrderReqs"
  by (simp add: createOrderRequests_def examplePlan_def exampleTrxs_def exampleTrx_def exampleLink_def
      orderRequestOf_def pvTicker2TradeStation_def ReplaceAll_def int64_of_float64_def trunc_def
      int64_range_def exampleOrderReqs_def)

lemma createOrderRequests_twoBuys:
  "createOrderRequests amd64 exampleLink (examplePlan twoBuys) largeBalance = twoBuyReqs"
  by (simp add: createOrderRequests_def examplePlan_def twoBuys_def exampleTrx_def exampleLink_def
      orderRequestOf_def pvTicker2TradeStation_def ReplaceAll_def int64_of_float64_def trunc_def
      int64_range_def twoBuyReqs_def)

text \<open>
  Claim C1. A transaction whose kind is neither \<open>BUY\<close> nor \<open>SELL\<close> should produce no
  order request. The code logs that it skips the transaction and then appends the request all
  the same: for a plan that buys MSFT and has a transaction of the unknown kind \<open>HOLD\<close>
  for AAPL, \<open>createOrderRequests\<close> returns two requests, the second one for AAPL with an
  empty trade action.
\<close>

theorem createOrderRequests_keeps_unknown_kind:
  "createOrderRequests amd64 exampleLink (examplePlan unknownKindTrxs) exampleBalance =
     [\<lparr>OrderRequest.AccountID = ''SIM001'', LimitPrice = Finite 10, OrderConfirmID = '''',
       OrderType = LIMIT, OrderRequest.Quantity = 100, StopPrice = Finite 0,
       OrderRequest.Symbol = ''MSFT'', TimeInForceDur = DAY, TradeAction = BUY\<rparr>,
      \<lparr>OrderRequest.AccountID = ''SIM001'', LimitPrice = Finite 20, OrderConfirmID = '''',
       OrderType = LIMIT, OrderRequest.Quantity = 5, StopPrice = Finite 0,
       OrderRequest.Symbol = ''AAPL'', TimeInForceDur = DAY, TradeAction = ''''\<rparr>]"
  by (simp add: createOrderRequests_def examplePlan_def unknownKindTrxs_def exampleTrx_def
      exampleLink_def orderRequestOf_def pvTicker2TradeStation_def ReplaceAll_def
      int64_of_float64_def trunc_def int64_range_def)

text \<open>
  Claim C6, as stated, fails for a negative share quantity: a purchase of \<open>-1.5\<close> shares
  gets the quantity \<open>-1\<close>, while the floor of \<open>-1.5\<close> is \<open>-2\<close>.
\<close>

theorem negative_shares_not_floor:
  "Transaction.Shares (Transactions negativeSharesPlan ! 0) = Finite (- 3 / 2) \<and>
   sint (OrderRequest.Quantity
           (createOrderRequests amd64 exampleLink negativeSharesPlan exampleBalance ! 0)) = - 1 \<and>
   \<lfloor>- 3 / 2 :: real\<rfloor> = - 2"
  by (simp add: createOrderRequests_def negativeSharesPlan_def examplePlan_def exampleTrx_def
      exampleLink_def orderRequestOf_def pvTicker2TradeStation_def ReplaceAll_def
      int64_of_float64_def trunc_def int64_range_def)

text \<open>
  Claim C6, amended. In a plan whose transactions are all of the kind \<open>BUY\<close> or \<open>SELL\<close>
  there is one order request for each transaction, with the action of its kind; and when the
  share quantity of the transaction is a finite \<open>S\<close> that truncates to a value in the range
  of \<open>int64\<close>, the quantity of its request is \<open>S\<close> truncated towards zero: the floor of
  \<open>S\<close> for \<open>S \<ge> 0\<close>, the ceiling for \<open>S < 0\<close>.
\<close>

theorem createOrderRequests_quantity_truncates:
  assumes "\<forall>trx\<in>set (Transactions strategyPlan). Kind trx = ''BUY'' \<or> Kind trx = ''SELL''"
    and "i < length (Transactions strategyPlan)"
    and "Transaction.Shares (Transactions strategyPlan ! i) = Finite S"
    and "int64_range (trunc S)"
  shows "length (createOrderRequests oor tlink strategyPlan balance) = length (Transactions strategyPlan) \<and>
     TradeAction (createOrderRequests oor tlink strategyPlan balance ! i) =
       Kind (Transactions strategyPlan ! i) \<and>
     sint (OrderRequest.Quantity (createOrderRequests oor tlink strategyPlan balance ! i)) =
       (if 0 \<le> S then \<lfloor>S\<rfloor> else \<lceil>S\<rceil>)"
proof -
  have "Kind (Transactions strategyPlan ! i) = ''BUY'' \<or> Kind (Transactions strategyPlan ! i) = ''SELL''"
    using assms(1,2) by simp
  then have "TradeAction (orderRequestOf oor tlink (Transactions strategyPlan ! i)) =
      Kind (Transactions strategyPlan ! i)"
    by (rule TradeAction_orderRequestOf)
  moreover have "sint (int64_of_float64 oor (Finite S)) = (if 0 \<le> S then \<lfloor>S\<rfloor> else \<lceil>S\<rceil>)"
    using sint_int64_of_float64 [OF assms(4)] by (simp add: trunc_def)
  ultimately show ?thesis
    using assms(2,3) by (simp add: createOrderRequests_map Quantity_orderRequestOf)
qed

lemma boundaryPlan_shares:
  "map Transaction.Shares (Transactions boundaryPlan) =
     [Finite 0, Finite 0,
      Finite (8998192055486251 / 9007199254740992), Finite (8998192055486251 / 9007199254740992),
      Finite (3 / 2), Finite (3 / 2),
      Finite (4501347827556811 / 2251799813685248), Finite (4501347827556811 / 2251799813685248),
      Finite (- 3 / 2)]"
  by (simp add: boundaryPlan_def examplePlan_def exampleTrx_def round64_three_halves round64_0999
      round64_1999)

lemma boundaryPlan_kinds:
  "map Kind (Transactions boundaryPlan) =
     [''BUY'', ''SELL'', ''BUY'', ''SELL'', ''BUY'', ''SELL'', ''BUY'', ''SELL'', ''BUY'']"
  by (simp add: boundaryPlan_def examplePlan_def exampleTrx_def)

text \<open>
  Claim C6, the boundary cases: the share quantities 0, 0.999, 1.5 and 1.999, each bought
  and sold, give the quantities 0, 0, 1 and 1; buying \<open>-1.5\<close> shares gives \<open>-1\<close>.
\<close>

theorem createOrderRequests_quantity_truncates_witness:
  "list_all (\<lambda>trx. Kind trx = ''BUY'' \<or> Kind trx = ''SELL'') (Transactions boundaryPlan) \<and>
   length (Transactions boundaryPlan) = 9 \<and>
   map Transaction.Shares (Transactions boundaryPlan) =
     map Finite [0, 0, 8998192055486251 / 9007199254740992, 8998192055486251 / 9007199254740992,
       3 / 2, 3 / 2, 4501347827556811 / 2251799813685248, 4501347827556811 / 2251799813685248,
       - 3 / 2] \<and>
   list_all (\<lambda>S. int64_range (trunc S))
     [0, 0, 8998192055486251 / 9007199254740992, 8998192055486251 / 9007199254740992,
       3 / 2, 3 / 2, 4501347827556811 / 2251799813685248, 4501347827556811 / 2251799813685248,
       - 3 / 2] \<and>
   map (\<lambda>i. sint (OrderRequest.Quantity (createOrderRequests amd64 exampleLink boundaryPlan exampleBalance ! i)))
     [0, 1, 2, 3, 4, 5, 6, 7, 8] = [0, 0, 0, 0, 1, 1, 1, 1, - 1]"
proof -
  let ?S = "[0, 0, 8998192055486251 / 9007199254740992, 8998192055486251 / 9007199254740992,
       3 / 2, 3 / 2, 4501347827556811 / 2251799813685248, 4501347827556811 / 2251799813685248,
       - 3 / 2] :: real list"
  have sh: "map Transaction.Shares (Transactions boundaryPlan) = map Finite ?S"
    by (simp add: boundaryPlan_shares)
  have len: "length (Transactions boundaryPlan) = 9"
    using arg_cong [OF boundaryPlan_shares, of length] by simp
  have kinds: "\<forall>trx\<in>set (Transactions boundaryPlan). Kind trx = ''BUY'' \<or> Kind trx = ''SELL''"
  proof
    fix trx
    assume "trx \<in> set (Transactions boundaryPlan)"
    then have "Kind trx \<in> set (map Kind (Transactions boundaryPlan))" by simp
    then show "Kind trx = ''BUY'' \<or> Kind trx = ''SELL''"
      unfolding boundaryPlan_kinds by auto
  qed
  have shi: "\<And>i. i < 9 \<Longrightarrow> Transaction.Shares (Transactions boundaryPlan ! i) = Finite (?S ! i)"
  proof -
    fix i :: nat
    assume i: "i < 9"
    have "Transaction.Shares (Transactions boundaryPlan ! i) =
        map Transaction.Shares (Transactions boundaryPlan) ! i"
      using i len by simp
    also have "\<dots> = map Finite ?S ! i" by (simp only: sh)
    also have "\<dots> = Finite (?S ! i)" using i by (subst nth_map) simp_all
    finally show "Transaction.Shares (Transactions boundaryPlan ! i) = Finite (?S ! i)" .
  qed
  have rng: "list_all (\<lambda>S. int64_range (trunc S)) ?S"
    by (simp add: trunc_def int64_range_def)
  have r: "\<And>i. i < 9 \<Longrightarrow> int64_range (trunc (?S ! i))"
    using rng by (simp add: list_all_length)
  have q: "\<And>i. i < 9 \<Longrightarrow>
      sint (OrderRequest.Quantity (createOrderRequests amd64 exampleLink boundaryPlan exampleBalance ! i)) =
        (if 0 \<le> ?S ! i then \<lfloor>?S ! i\<rfloor> else \<lceil>?S ! i\<rceil>)"
    using createOrderRequests_quantity_truncates
      [OF kinds _ shi r, of _ amd64 exampleLink exampleBalance] len by simp
  have "map (\<lambda>i. sint (OrderRequest.Quantity (createOrderRequests amd64 exampleLink boundaryPlan exampleBalance ! i)))
     [0, 1, 2, 3, 4, 5, 6, 7, 8] = [0, 0, 0, 0, 1, 1, 1, 1, - 1]"
    by (simp add: q)
  moreover have "list_all (\<lambda>trx. Kind trx = ''BUY'' \<or> Kind trx = ''SELL'') (Transactions boundaryPlan)"
    using kinds by (simp add: list_all_iff)
  ultimately show ?thesis using len sh rng by (intro conjI)
qed

section \<open>Properties of the price loop\<close>

lemma pricesOfQuotes_step:
  assumes "snd (pricesOfQuotes w P0 (q # rest)) = Inr P"
  shows "\<exists>sec P1. snd (securityFromSymbol w (Quote.Symbol q)) = Inr sec \<and>
           snd (pricesOfQuotes w P1 rest) = Inr P \<and>
           (Quote.Symbol q \<noteq> ''BRK.B'' \<longrightarrow>
              P1 = P0(PVSecurity.CompositeFIGI sec \<mapsto> referencePrice q)) \<and>
           (Quote.Symbol q = ''BRK.B'' \<longrightarrow>
              (\<exists>secA. snd (securityFromSymbol w ''BRK.A'') = Inr secA \<and>
                 P1 = P0(PVSecurity.CompositeFIGI sec \<mapsto> referencePrice q,
                         PVSecurity.CompositeFIGI secA \<mapsto> referencePrice q)))"
proof (cases "Quote.Symbol q = ''BRK.B''")
  case True
  with assms obtain sec secA where "snd (securityFromSymbol w (Quote.Symbol q)) = Inr sec"
    "snd (securityFromSymbol w ''BRK.A'') = Inr secA"
    "snd (pricesOfQuotes w (P0(PVSecurity.CompositeFIGI sec \<mapsto> referencePrice q,
                     PVSecurity.CompositeFIGI secA \<mapsto> referencePrice q)) rest) = Inr P"
    by (auto simp: Let_def split: prod.splits sum.splits)
  with True show ?thesis by blast
next
  case False
  with assms obtain sec where "snd (securityFromSymbol w (Quote.Symbol q)) = Inr sec"
    "snd (pricesOfQuotes w (P0(PVSecurity.CompositeFIGI sec \<mapsto> referencePrice q)) rest) = Inr P"
    by (auto simp: Let_def split: prod.splits sum.splits)
  with False show ?thesis by blast
qed

lemma pricesOfQuotes_preserves:
  "snd (pricesOfQuotes w P0 quotes) = Inr P \<Longrightarrow> P0 k = Some v \<Longrightarrow>
   \<forall>q\<in>set quotes. agree w k v q \<Longrightarrow> P k = Some v"
proof (induction quotes arbitrary: P0)
  case Nil
  then show ?case by simp
next
  case (Cons q rest)
  from pricesOfQuotes_step [OF Cons.prems(1)] obtain sec P1
    where sec: "snd (securityFromSymbol w (Quote.Symbol q)) = Inr sec"
      and run: "snd (pricesOfQuotes w P1 rest) = Inr P"
      and other: "Quote.Symbol q \<noteq> ''BRK.B'' \<longrightarrow>
           (P1 = P0(PVSecurity.CompositeFIGI sec \<mapsto> referencePrice q))"
      and brk: "Quote.Symbol q = ''BRK.B'' \<longrightarrow>
           (\<exists>secA. snd (securityFromSymbol w ''BRK.A'') = Inr secA \<and>
             P1 = P0(PVSecurity.CompositeFIGI sec \<mapsto> referencePrice q,
                     PVSecurity.CompositeFIGI secA \<mapsto> referencePrice q))"
    by blast
  have ag: "agree w k v q" and rest: "\<forall>q\<in>set rest. agree w k v q"
    using Cons.prems(3) by simp_all
  have id: "identifierOf w (Quote.Symbol q) = Some (PVSecurity.CompositeFIGI sec)"
    by (simp add: identifierOf_def sec)
  have "P1 k = Some v"
  proof (cases "Quote.Symbol q = ''BRK.B''")
    case True
    with brk obtain secA where secA: "snd (securityFromSymbol w ''BRK.A'') = Inr secA"
      and P1: "P1 = P0(PVSecurity.CompositeFIGI sec \<mapsto> referencePrice q,
                     PVSecurity.CompositeFIGI secA \<mapsto> referencePrice q)"
      by blast
    have "identifierOf w ''BRK.A'' = Some (PVSecurity.CompositeFIGI secA)"
      by (simp add: identifierOf_def secA)
    then show ?thesis
      using ag id True Cons.prems(2) by (auto simp: agree_def P1)
  next
    case False
    with other have "P1 = P0(PVSecurity.CompositeFIGI sec \<mapsto> referencePrice q)" by simp
    then show ?thesis
      using ag id Cons.prems(2) by (auto simp: agree_def)
  qed
  then show ?case using Cons.IH [OF run _ rest] by simp
qed

lemma pricesOfQuotes_dom:
  "snd (pricesOfQuotes w P0 quotes) = Inr P \<Longrightarrow> k \<in> dom P0 \<Longrightarrow> k \<in> dom P"
proof (induction quotes arbitrary: P0)
  case Nil
  then show ?case by simp
next
  case (Cons q rest)
  from pricesOfQuotes_step [OF Cons.prems(1)] obtain sec P1
    where sec: "snd (securityFromSymbol w (Quote.Symbol q)) = Inr sec"
      and run: "snd (pricesOfQuotes w P1 rest) = Inr P"
      and other: "Quote.Symbol q \<noteq> ''BRK.B'' \<longrightarrow>
           (P1 = P0(PVSecurity.CompositeFIGI sec \<mapsto> referencePrice q))"
      and brk: "Quote.Symbol q = ''BRK.B'' \<longrightarrow>
           (\<exists>secA. snd (securityFromSymbol w ''BRK.A'') = Inr secA \<and>
             P1 = P0(PVSecurity.CompositeFIGI sec \<mapsto> referencePrice q,
                     PVSecurity.CompositeFIGI secA \<mapsto> referencePrice q))"
    by blast
  have "k \<in> dom P1"
    using other brk Cons.prems(2) by (cases "Quote.Symbol q = ''BRK.B''") auto
  then show ?case by (rule Cons.IH [OF run])
qed

lemma pricesOfQuotes_resolves:
  "snd (pricesOfQuotes w P0 quotes) = Inr P \<Longrightarrow> q \<in> set quotes \<Longrightarrow>
   \<exists>figi. identifierOf w (Quote.Symbol q) = Some figi"
proof (induction quotes arbitrary: P0)
  case Nil
  then show ?case by simp
next
  case (Cons q0 rest)
  from pricesOfQuotes_step [OF Cons.prems(1)] obtain sec P1
    where sec: "snd (securityFromSymbol w (Quote.Symbol q0)) = Inr sec"
      and run: "snd (pricesOfQuotes w P1 rest) = Inr P"
    by blast
  show ?case
  proof (cases "q = q0")
    case True
    then show ?thesis by (simp add: identifierOf_def sec)
  next
    case False
    then have "q \<in> set rest" using Cons.prems(2) by simp
    then show ?thesis by (rule Cons.IH [OF run])
  qed
qed

lemma pricesOfQuotes_has_entry:
  "snd (pricesOfQuotes w P0 quotes) = Inr P \<Longrightarrow> q \<in> set quotes \<Longrightarrow>
   identifierOf w (Quote.Symbol q) = Some k \<Longrightarrow> k \<in> dom P"
proof (induction quotes arbitrary: P0)
  case Nil
  then show ?case by simp
next
  case (Cons q0 rest)
  from pricesOfQuotes_step [OF Cons.prems(1)] obtain sec P1
    where sec: "snd (securityFromSymbol w (Quote.Symbol q0)) = Inr sec"
      and run: "snd (pricesOfQuotes w P1 rest) = Inr P"
      and other: "Quote.Symbol q0 \<noteq> ''BRK.B'' \<longrightarrow>
           (P1 = P0(PVSecurity.CompositeFIGI sec \<mapsto> referencePrice q0))"
      and brk: "Quote.Symbol q0 = ''BRK.B'' \<longrightarrow>
           (\<exists>secA. snd (securityFromSymbol w ''BRK.A'') = Inr secA \<and>
             P1 = P0(PVSecurity.CompositeFIGI sec \<mapsto> referencePrice q0,
                     PVSecurity.CompositeFIGI secA \<mapsto> referencePrice q0))"
    by blast
  show ?case
  proof (cases "q \<in> set rest")
    case True
    then show ?thesis by (rule Cons.IH [OF run _ Cons.prems(3)])
  next
    case False
    then have q0: "q0 = q" using Cons.prems(2) by simp
    have "PVSecurity.CompositeFIGI sec = k"
      using sec Cons.prems(3) by (simp add: identifierOf_def q0)
    then have "k \<in> dom P1"
      using other brk by (cases "Quote.Symbol q0 = ''BRK.B''") auto
    then show ?thesis by (rule pricesOfQuotes_dom [OF run])
  qed
qed

lemma pricesOfQuotes_source:
  "snd (pricesOfQuotes w P0 quotes) = Inr P \<Longrightarrow> P k = Some v \<Longrightarrow>
   P0 k = Some v \<or>
   (\<exists>q\<in>set quotes. v = referencePrice q \<and>
      (identifierOf w (Quote.Symbol q) = Some k \<or>
       Quote.Symbol q = ''BRK.B'' \<and> identifierOf w ''BRK.A'' = Some k))"
proof (induction quotes arbitrary: P0)
  case Nil
  then show ?case by simp
next
  case (Cons q0 rest)
  from pricesOfQuotes_step [OF Cons.prems(1)] obtain sec P1
    where sec: "snd (securityFromSymbol w (Quote.Symbol q0)) = Inr sec"
      and run: "snd (pricesOfQuotes w P1 rest) = Inr P"
      and other: "Quote.Symbol q0 \<noteq> ''BRK.B'' \<longrightarrow>
           (P1 = P0(PVSecurity.CompositeFIGI sec \<mapsto> referencePrice q0))"
      and brk: "Quote.Symbol q0 = ''BRK.B'' \<longrightarrow>
           (\<exists>secA. snd (securityFromSymbol w ''BRK.A'') = Inr secA \<and>
             P1 = P0(PVSecurity.CompositeFIGI sec \<mapsto> referencePrice q0,
                     PVSecurity.CompositeFIGI secA \<mapsto> referencePrice q0))"
    by blast
  have id: "identifierOf w (Quote.Symbol q0) = Some (PVSecurity.CompositeFIGI sec)"
    by (simp add: identifierOf_def sec)
  let ?here = "v = referencePrice q0 \<and>
      (identifierOf w (Quote.Symbol q0) = Some k \<or>
       Quote.Symbol q0 = ''BRK.B'' \<and> identifierOf w ''BRK.A'' = Some k)"
  have first: "P0 k = Some v \<or> ?here" if P1: "P1 k = Some v"
  proof (cases "Quote.Symbol q0 = ''BRK.B''")
    case True
    with brk obtain secA where secA: "snd (securityFromSymbol w ''BRK.A'') = Inr secA"
      and eq: "P1 = P0(PVSecurity.CompositeFIGI sec \<mapsto> referencePrice q0,
                     PVSecurity.CompositeFIGI secA \<mapsto> referencePrice q0)"
      by blast
    have idA: "identifierOf w ''BRK.A'' = Some (PVSecurity.CompositeFIGI secA)"
      by (simp add: identifierOf_def secA)
    from P1 show ?thesis
      unfolding eq using id idA True by (auto split: if_splits)
  next
    case False
    with other have eq: "P1 = P0(PVSecurity.CompositeFIGI sec \<mapsto> referencePrice q0)"
      by simp
    from P1 show ?thesis
      unfolding eq using id by (auto split: if_splits)
  qed
  from Cons.IH [OF run Cons.prems(2)] first show ?case by auto
qed

lemma pricesOfQuotes_entry:
  "snd (pricesOfQuotes w P0 quotes) = Inr P \<Longrightarrow> q \<in> set quotes \<Longrightarrow>
   identifierOf w (Quote.Symbol q) = Some k \<Longrightarrow>
   \<forall>q'\<in>set quotes. agree w k (referencePrice q) q' \<Longrightarrow> P k = Some (referencePrice q)"
proof (induction quotes arbitrary: P0)
  case Nil
  then show ?case by simp
next
  case (Cons q0 rest)
  from pricesOfQuotes_step [OF Cons.prems(1)] obtain sec P1
    where sec: "snd (securityFromSymbol w (Quote.Symbol q0)) = Inr sec"
      and run: "snd (pricesOfQuotes w P1 rest) = Inr P"
      and other: "Quote.Symbol q0 \<noteq> ''BRK.B'' \<longrightarrow>
           (P1 = P0(PVSecurity.CompositeFIGI sec \<mapsto> referencePrice q0))"
      and brk: "Quote.Symbol q0 = ''BRK.B'' \<longrightarrow>
           (\<exists>secA. snd (securityFromSymbol w ''BRK.A'') = Inr secA \<and>
             P1 = P0(PVSecurity.CompositeFIGI sec \<mapsto> referencePrice q0,
                     PVSecurity.CompositeFIGI secA \<mapsto> referencePrice q0))"
    by blast
  have rest: "\<forall>q'\<in>set rest. agree w k (referencePrice q) q'"
    using Cons.prems(4) by simp
  show ?case
  proof (cases "q \<in> set rest")
    case True
    then show ?thesis by (rule Cons.IH [OF run _ Cons.prems(3) rest])
  next
    case False
    then have q0: "q0 = q" using Cons.prems(2) by simp
    have "PVSecurity.CompositeFIGI sec = k"
      using sec Cons.prems(3) by (simp add: identifierOf_def q0)
    then have "P1 k = Some (referencePrice q)"
      using other brk by (cases "Quote.Symbol q0 = ''BRK.B''") (auto simp: q0)
    then show ?thesis by (rule pricesOfQuotes_preserves [OF run _ rest])
  qed
qed

lemma pricesOfQuotes_BRK_A:
  "snd (pricesOfQuotes w P0 quotes) = Inr P \<Longrightarrow> q \<in> set quotes \<Longrightarrow> Quote.Symbol q = ''BRK.B'' \<Longrightarrow>
   \<exists>kA. identifierOf w ''BRK.A'' = Some kA \<and> kA \<in> dom P \<and>
     ((\<forall>q'\<in>set quotes. agree w kA (referencePrice q) q') \<longrightarrow> P kA = Some (referencePrice q))"
proof (induction quotes arbitrary: P0)
  case Nil
  then show ?case by simp
next
  case (Cons q0 rest)
  from pricesOfQuotes_step [OF Cons.prems(1)] obtain sec P1
    where sec: "snd (securityFromSymbol w (Quote.Symbol q0)) = Inr sec"
      and run: "snd (pricesOfQuotes w P1 rest) = Inr P"
      and other: "Quote.Symbol q0 \<noteq> ''BRK.B'' \<longrightarrow>
           (P1 = P0(PVSecurity.CompositeFIGI sec \<mapsto> referencePrice q0))"
      and brk: "Quote.Symbol q0 = ''BRK.B'' \<longrightarrow>
           (\<exists>secA. snd (securityFromSymbol w ''BRK.A'') = Inr secA \<and>
             P1 = P0(PVSecurity.CompositeFIGI sec \<mapsto> referencePrice q0,
                     PVSecurity.CompositeFIGI secA \<mapsto> referencePrice q0))"
    by blast
  show ?case
  proof (cases "q \<in> set rest")
    case True
    from Cons.IH [OF run True Cons.prems(3)] show ?thesis by auto
  next
    case False
    then have q0: "q0 = q" using Cons.prems(2) by simp
    with brk Cons.prems(3) obtain secA where secA: "snd (securityFromSymbol w ''BRK.A'') = Inr secA"
      and P1: "P1 = P0(PVSecurity.CompositeFIGI sec \<mapsto> referencePrice q,
                PVSecurity.CompositeFIGI secA \<mapsto> referencePrice q)"
      by auto
    have idA: "identifierOf w ''BRK.A'' = Some (PVSecurity.CompositeFIGI secA)"
      by (simp add: identifierOf_def secA)
    have at: "P1 (PVSecurity.CompositeFIGI secA) = Some (referencePrice q)"
      by (simp add: P1)
    then have "PVSecurity.CompositeFIGI secA \<in> dom P"
      using pricesOfQuotes_dom [OF run] by blast
    moreover have "(\<forall>q'\<in>set (q0 # rest). agree w (PVSecurity.CompositeFIGI secA) (referencePrice q) q')
        \<longrightarrow> P (PVSecurity.CompositeFIGI secA) = Some (referencePrice q)"
      using pricesOfQuotes_preserves [OF run at] by simp
    ultimately show ?thesis using idA by blast
  qed
qed

lemma oneIdentifierEach_same_quote:
  assumes "oneIdentifierEach w quotes" "q \<in> set quotes" "q' \<in> set quotes"
    and "Quote.Symbol q' = Quote.Symbol q"
  shows "q' = q"
proof -
  have "inj_on Quote.Symbol (set quotes)"
    using assms(1) by (simp add: oneIdentifierEach_def distinct_map)
  then show ?thesis using assms(2-4) by (simp add: inj_on_eq_iff)
qed

lemma oneIdentifierEach_agree:
  assumes "oneIdentifierEach w quotes" "q \<in> set quotes" "q' \<in> set quotes"
    and "identifierOf w (Quote.Symbol q) = Some k"
  shows "agree w k (referencePrice q) q'"
proof -
  have inj: "inj_on (identifierOf w) (set (''BRK.A'' # map Quote.Symbol quotes))"
    and notA: "''BRK.A'' \<notin> set (map Quote.Symbol quotes)"
    using assms(1) unfolding oneIdentifierEach_def by blast+
  have mem: "Quote.Symbol q \<in> set (''BRK.A'' # map Quote.Symbol quotes)"
       "Quote.Symbol q' \<in> set (''BRK.A'' # map Quote.Symbol quotes)"
       "''BRK.A'' \<in> set (''BRK.A'' # map Quote.Symbol quotes)"
    using assms(2,3) by simp_all
  have "referencePrice q' = referencePrice q" if "identifierOf w (Quote.Symbol q') = Some k"
  proof -
    have "Quote.Symbol q' = Quote.Symbol q"
      by (rule inj_onD [OF inj _ mem(2) mem(1)]) (simp add: that assms(4))
    then show ?thesis using oneIdentifierEach_same_quote [OF assms(1-3)] by simp
  qed
  moreover have "identifierOf w ''BRK.A'' \<noteq> Some k"
  proof
    assume "identifierOf w ''BRK.A'' = Some k"
    then have "''BRK.A'' = Quote.Symbol q"
      by (intro inj_onD [OF inj _ mem(3) mem(1)]) (simp add: assms(4))
    then show False using notA assms(2) by auto
  qed
  ultimately show ?thesis by (simp add: agree_def)
qed

lemma oneIdentifierEach_agree_BRK_A:
  assumes "oneIdentifierEach w quotes" "q \<in> set quotes" "q' \<in> set quotes"
    and "Quote.Symbol q = ''BRK.B''" "identifierOf w ''BRK.A'' = Some kA"
  shows "agree w kA (referencePrice q) q'"
proof -
  have inj: "inj_on (identifierOf w) (set (''BRK.A'' # map Quote.Symbol quotes))"
    and notA: "''BRK.A'' \<notin> set (map Quote.Symbol quotes)"
    using assms(1) unfolding oneIdentifierEach_def by blast+
  have mem: "Quote.Symbol q' \<in> set (''BRK.A'' # map Quote.Symbol quotes)"
       "''BRK.A'' \<in> set (''BRK.A'' # map Quote.Symbol quotes)"
    using assms(3) by simp_all
  have "identifierOf w (Quote.Symbol q') \<noteq> Some kA"
  proof
    assume "identifierOf w (Quote.Symbol q') = Some kA"
    then have "''BRK.A'' = Quote.Symbol q'"
      by (intro inj_onD [OF inj _ mem(2) mem(1)]) (simp add: assms(5))
    then show False using notA assms(3) by auto
  qed
  moreover have "referencePrice q' = referencePrice q" if "Quote.Symbol q' = ''BRK.B''"
    using oneIdentifierEach_same_quote [OF assms(1-3)] that assms(4) by simp
  ultimately show ?thesis by (simp add: agree_def)
qed

lemma exampleWorld_fields:
  "confirmInput (exampleWorld trxs answer placed) = answer"
  "PlaceGroupOrder (exampleWorld trxs answer placed) account orderReqs = placed"
  "outOfRange (exampleWorld trxs answer placed) = amd64"
  "security (exampleWorld trxs answer placed) = exampleSecurity"
  by (simp_all add: exampleWorld_def)

lemma identifierOf_example:
  "identifierOf (exampleWorld trxs answer placed) ''AAPL'' = Some ''BBG000B9XRY4''"
  "identifierOf (exampleWorld trxs answer placed) ''BRK.B'' = Some ''BBG000DWG505''"
  "identifierOf (exampleWorld trxs answer placed) ''BRK.A'' = Some ''BBG000DWCFL4''"
  by (simp_all add: identifierOf_def securityFromSymbol_def ReplaceAll_def exampleWorld_fields
      exampleSecurity_def Let_def)

lemma pricesOfQuotes_example:
  "snd (pricesOfQuotes (exampleWorld trxs answer placed) Map.empty brkQuotes) = Inr brkPrices"
  by (simp add: brkQuotes_def brkPrices_def securityFromSymbol_def ReplaceAll_def exampleWorld_fields
      exampleSecurity_def referencePrice_def Let_def)

lemma oneIdentifierEach_example:
  "oneIdentifierEach (exampleWorld trxs answer placed) brkQuotes"
  by (simp add: oneIdentifierEach_def brkQuotes_def identifierOf_example)

lemma identifierOf_MSFT:
  "identifierOf (exampleWorld trxs answer placed) ''MSFT'' = Some ''BBG000BPH459''"
  by (simp add: identifierOf_def securityFromSymbol_def ReplaceAll_def exampleWorld_fields
      exampleSecurity_def Let_def)

lemma referencePrice_exact:
  assumes "Ask q = Finite a" "Bid q = Finite b"
    and "round64 (a - b) = Finite (a - b)"
    and "round64 ((a - b) / 2) = Finite ((a - b) / 2)"
    and "round64 (b + (a - b) / 2) = Finite (b + (a - b) / 2)"
  shows "referencePrice q = Finite (b + (a - b) / 2)"
  using assms by (simp add: referencePrice_def)

lemma pricesOfQuotes_twoAapl:
  "snd (pricesOfQuotes (exampleWorld trxs answer placed) Map.empty twoAaplQuotes) =
     Inr [''BBG000B9XRY4'' \<mapsto> Finite 101]"
  by (simp add: twoAaplQuotes_def securityFromSymbol_def ReplaceAll_def exampleWorld_fields
      exampleSecurity_def referencePrice_def Let_def)

lemma pricesOfQuotes_brkBoth:
  "snd (pricesOfQuotes (exampleWorld trxs answer placed) Map.empty brkBothQuotes) =
     Inr [''BBG000DWG505'' \<mapsto> Finite 301, ''BBG000DWCFL4'' \<mapsto> Finite 450001]"
  by (simp add: brkBothQuotes_def securityFromSymbol_def ReplaceAll_def exampleWorld_fields
      exampleSecurity_def referencePrice_def Let_def)

lemma pricesOfQuotes_cent:
  "snd (pricesOfQuotes (exampleWorld trxs answer placed) Map.empty [centQuote]) =
     Inr [''BBG000BPH459'' \<mapsto> Finite (11275887567028880 / 1125899906842624)]"
proof -
  have sym: "Quote.Symbol centQuote = ''MSFT''"
    by (simp add: centQuote_def)
  show ?thesis
    by (simp add: sym referencePrice_centQuote securityFromSymbol_def ReplaceAll_def
        exampleWorld_fields exampleSecurity_def Let_def)
qed

text \<open>
  Claim C8, as stated, fails in two ways. When the brokerage answers with two quotes for
  AAPL, the first with bid 149 and ask 151, the price recorded for AAPL is 101, the price of
  the second quote, and not 150. And the recorded price is a \<open>float64\<close>: for the quote
  with bid 10.01 and ask 10.02 the sum \<open>bid + (ask - bid) / 2\<close> is rounded up, so that
  the recorded price is not the midpoint of the bid and the ask of the quote.
\<close>

theorem recorded_price_not_midpoint:
  "twoAaplQuotes ! 0 = \<lparr>Ask = Finite 151, Bid = Finite 149, Quote.Symbol = ''AAPL''\<rparr> \<and>
   identifierOf (exampleWorld [] ''n'' (Inr [])) ''AAPL'' = Some ''BBG000B9XRY4'' \<and>
   snd (pricesOfQuotes (exampleWorld [] ''n'' (Inr [])) Map.empty twoAaplQuotes) =
     Inr [''BBG000B9XRY4'' \<mapsto> Finite 101] \<and>
   (149 + (151 - 149) / 2 :: real) = 150 \<and>
   Bid centQuote = Finite (5635129033747333 / 562949953421312) \<and>
   Ask centQuote = Finite (5640758533281546 / 562949953421312) \<and>
   Quote.Symbol centQuote = ''MSFT'' \<and>
   identifierOf (exampleWorld [] ''n'' (Inr [])) ''MSFT'' = Some ''BBG000BPH459'' \<and>
   snd (pricesOfQuotes (exampleWorld [] ''n'' (Inr [])) Map.empty [centQuote]) =
     Inr [''BBG000BPH459'' \<mapsto> Finite (11275887567028880 / 1125899906842624)] \<and>
   (5635129033747333 / 562949953421312 +
      (5640758533281546 / 562949953421312 - 5635129033747333 / 562949953421312) / 2 :: real) =
     11275887567028879 / 1125899906842624"
proof -
  have c1: "Bid centQuote = Finite (5635129033747333 / 562949953421312)"
    by (simp only: centQuote_def Quote.simps round64_1001)
  have c2: "Ask centQuote = Finite (5640758533281546 / 562949953421312)"
    by (simp only: centQuote_def Quote.simps round64_1002)
  have c3: "Quote.Symbol centQuote = ''MSFT''"
    by (simp add: centQuote_def)
  have a1: "twoAaplQuotes ! 0 = \<lparr>Ask = Finite 151, Bid = Finite 149, Quote.Symbol = ''AAPL''\<rparr>"
    by (simp add: twoAaplQuotes_def)
  have a2: "(149 + (151 - 149) / 2 :: real) = 150"
    by simp
  have c4: "(5635129033747333 / 562949953421312 +
      (5640758533281546 / 562949953421312 - 5635129033747333 / 562949953421312) / 2 :: real) =
     11275887567028879 / 1125899906842624"
    by simp
  from a1 a2 c1 c2 c3 c4 show ?thesis
    using identifierOf_example(1) [of "[]" "''n''" "Inr []"]
      pricesOfQuotes_twoAapl [of "[]" "''n''" "Inr []"]
      identifierOf_MSFT [of "[]" "''n''" "Inr []"]
      pricesOfQuotes_cent [of "[]" "''n''" "Inr []"]
    by (intro conjI)
qed

text \<open>
  Claim C8, amended. When the loop over the quotes succeeds, the price map has an entry under
  the identifier of every quoted symbol, and every entry of the map is the \<open>float64\<close>
  value of \<open>bid + (ask - bid) / 2\<close> of a quote, each of the three operations rounded to
  the nearest \<open>float64\<close>: of a quote whose symbol has that identifier, or of a quote of
  \<open>BRK.B\<close> when the identifier is that of \<open>BRK.A\<close>. When the answers name every
  security once, the entry under the identifier of a quoted symbol is that value of its own
  quote, and it is the midpoint of bid and ask when none of the three operations rounds.
\<close>

theorem pricesOfQuotes_midpoint:
  assumes "snd (pricesOfQuotes w Map.empty quotes) = Inr prices"
  shows "(\<forall>q\<in>set quotes. \<exists>figi. identifierOf w (Quote.Symbol q) = Some figi \<and> figi \<in> dom prices \<and>
            (oneIdentifierEach w quotes \<longrightarrow>
               prices figi = Some (fadd (Bid q) (fdiv2 (fsub (Ask q) (Bid q)))) \<and>
               (\<forall>a b. Ask q = Finite a \<and> Bid q = Finite b \<and>
                    round64 (a - b) = Finite (a - b) \<and>
                    round64 ((a - b) / 2) = Finite ((a - b) / 2) \<and>
                    round64 (b + (a - b) / 2) = Finite (b + (a - b) / 2) \<longrightarrow>
                  prices figi = Some (Finite (b + (a - b) / 2))))) \<and>
         (\<forall>figi v. prices figi = Some v \<longrightarrow>
            (\<exists>q\<in>set quotes. v = fadd (Bid q) (fdiv2 (fsub (Ask q) (Bid q))) \<and>
               (identifierOf w (Quote.Symbol q) = Some figi \<or>
                Quote.Symbol q = ''BRK.B'' \<and> identifierOf w ''BRK.A'' = Some figi)))"
proof (intro conjI ballI allI impI)
  fix q
  assume q: "q \<in> set quotes"
  from pricesOfQuotes_resolves [OF assms q]
  obtain figi where figi: "identifierOf w (Quote.Symbol q) = Some figi" ..
  have "figi \<in> dom prices"
    using assms q figi by (rule pricesOfQuotes_has_entry)
  moreover have "prices figi = Some (fadd (Bid q) (fdiv2 (fsub (Ask q) (Bid q)))) \<and>
      (\<forall>a b. Ask q = Finite a \<and> Bid q = Finite b \<and>
           round64 (a - b) = Finite (a - b) \<and>
           round64 ((a - b) / 2) = Finite ((a - b) / 2) \<and>
           round64 (b + (a - b) / 2) = Finite (b + (a - b) / 2) \<longrightarrow>
         prices figi = Some (Finite (b + (a - b) / 2)))"
    if one: "oneIdentifierEach w quotes"
  proof -
    have "\<forall>q'\<in>set quotes. agree w figi (referencePrice q) q'"
      using oneIdentifierEach_agree [OF one q _ figi] by blast
    from pricesOfQuotes_entry [OF assms q figi this]
    have own: "prices figi = Some (referencePrice q)" .
    then have "prices figi = Some (fadd (Bid q) (fdiv2 (fsub (Ask q) (Bid q))))"
      by (simp add: referencePrice_def)
    moreover have "prices figi = Some (Finite (b + (a - b) / 2))"
      if "Ask q = Finite a \<and> Bid q = Finite b \<and>
           round64 (a - b) = Finite (a - b) \<and>
           round64 ((a - b) / 2) = Finite ((a - b) / 2) \<and>
           round64 (b + (a - b) / 2) = Finite (b + (a - b) / 2)" for a b
    proof -
      have "referencePrice q = Finite (b + (a - b) / 2)"
        using that by (intro referencePrice_exact) simp_all
      with own show ?thesis by simp
    qed
    ultimately show ?thesis by blast
  qed
  ultimately show "\<exists>figi. identifierOf w (Quote.Symbol q) = Some figi \<and> figi \<in> dom prices \<and>
      (oneIdentifierEach w quotes \<longrightarrow>
         prices figi = Some (fadd (Bid q) (fdiv2 (fsub (Ask q) (Bid q)))) \<and>
         (\<forall>a b. Ask q = Finite a \<and> Bid q = Finite b \<and>
              round64 (a - b) = Finite (a - b) \<and>
              round64 ((a - b) / 2) = Finite ((a - b) / 2) \<and>
              round64 (b + (a - b) / 2) = Finite (b + (a - b) / 2) \<longrightarrow>
            prices figi = Some (Finite (b + (a - b) / 2))))"
    using figi by blast
next
  fix figi v
  assume "prices figi = Some v"
  from pricesOfQuotes_source [OF assms this]
  show "\<exists>q\<in>set quotes. v = fadd (Bid q) (fdiv2 (fsub (Ask q) (Bid q))) \<and>
          (identifierOf w (Quote.Symbol q) = Some figi \<or>
           Quote.Symbol q = ''BRK.B'' \<and> identifierOf w ''BRK.A'' = Some figi)"
    by (simp add: referencePrice_def)
qed

text \<open>
  Claim C8, amended, in the example world: the quote of AAPL with bid 149 and ask 151, where
  no operation rounds, is recorded under the identifier of AAPL with the price 150.
\<close>

theorem pricesOfQuotes_midpoint_witness:
  "snd (pricesOfQuotes (exampleWorld [] ''n'' (Inr [])) Map.empty brkQuotes) = Inr brkPrices \<and>
   oneIdentifierEach (exampleWorld [] ''n'' (Inr [])) brkQuotes \<and>
   \<lparr>Ask = Finite 151, Bid = Finite 149, Quote.Symbol = ''AAPL''\<rparr> \<in> set brkQuotes \<and>
   identifierOf (exampleWorld [] ''n'' (Inr [])) ''AAPL'' = Some ''BBG000B9XRY4'' \<and>
   round64 (151 - 149) = Finite (151 - 149) \<and>
   round64 ((151 - 149) / 2) = Finite ((151 - 149) / 2) \<and>
   round64 (149 + (151 - 149) / 2) = Finite (149 + (151 - 149) / 2) \<and>
   brkPrices ''BBG000B9XRY4'' = Some (fadd (Finite 149) (fdiv2 (fsub (Finite 151) (Finite 149)))) \<and>
   brkPrices ''BBG000B9XRY4'' = Some (Finite (149 + (151 - 149) / 2)) \<and>
   brkPrices ''BBG000DWCFL4'' = Some (Finite 301) \<and>
   (\<exists>q\<in>set brkQuotes. Finite 301 = fadd (Bid q) (fdiv2 (fsub (Ask q) (Bid q))) \<and>
      Quote.Symbol q = ''BRK.B'')"
proof -
  let ?W = "exampleWorld [] ''n'' (Inr [])"
  let ?Q = "\<lparr>Ask = Finite 151, Bid = Finite 149, Quote.Symbol = ''AAPL''\<rparr>"
  note t = pricesOfQuotes_midpoint [OF pricesOfQuotes_example, of "[]" "''n''" "Inr []"]
  have m: "?Q \<in> set brkQuotes"
    by (simp add: brkQuotes_def)
  have r: "round64 (151 - 149) = Finite (151 - 149)"
    "round64 ((151 - 149) / 2) = Finite ((151 - 149) / 2)"
    "round64 (149 + (151 - 149) / 2) = Finite (149 + (151 - 149) / 2)"
    by simp_all
  have one: "oneIdentifierEach ?W brkQuotes"
    by (rule oneIdentifierEach_example)
  have id: "identifierOf ?W ''AAPL'' = Some ''BBG000B9XRY4''"
    by (rule identifierOf_example)
  from t [THEN conjunct1, rule_format, OF m]
  obtain figi where f: "identifierOf ?W (Quote.Symbol ?Q) = Some figi"
    and imp: "oneIdentifierEach ?W brkQuotes \<longrightarrow>
       brkPrices figi = Some (fadd (Bid ?Q) (fdiv2 (fsub (Ask ?Q) (Bid ?Q)))) \<and>
       (\<forall>a b. Ask ?Q = Finite a \<and> Bid ?Q = Finite b \<and>
            round64 (a - b) = Finite (a - b) \<and>
            round64 ((a - b) / 2) = Finite ((a - b) / 2) \<and>
            round64 (b + (a - b) / 2) = Finite (b + (a - b) / 2) \<longrightarrow>
          brkPrices figi = Some (Finite (b + (a - b) / 2)))"
    by blast
  have figi: "figi = ''BBG000B9XRY4''"
    using f id by simp
  from imp one have own: "brkPrices figi = Some (fadd (Bid ?Q) (fdiv2 (fsub (Ask ?Q) (Bid ?Q))))"
    and exact: "\<And>a b. Ask ?Q = Finite a \<and> Bid ?Q = Finite b \<and>
            round64 (a - b) = Finite (a - b) \<and>
            round64 ((a - b) / 2) = Finite ((a - b) / 2) \<and>
            round64 (b + (a - b) / 2) = Finite (b + (a - b) / 2) \<Longrightarrow>
          brkPrices figi = Some (Finite (b + (a - b) / 2))"
    by blast+
  from own have a1: "brkPrices ''BBG000B9XRY4'' =
      Some (fadd (Finite 149) (fdiv2 (fsub (Finite 151) (Finite 149))))"
    by (simp only: figi Quote.simps)
  have "brkPrices figi = Some (Finite (149 + (151 - 149) / 2))"
    by (rule exact) (simp only: Quote.simps r simp_thms)
  then have a2: "brkPrices ''BBG000B9XRY4'' = Some (Finite (149 + (151 - 149) / 2))"
    by (simp only: figi)
  have b: "brkPrices ''BBG000DWCFL4'' = Some (Finite 301)"
    by (simp add: brkPrices_def)
  from t [THEN conjunct2, rule_format, OF b]
  have c: "\<exists>q\<in>set brkQuotes. Finite 301 = fadd (Bid q) (fdiv2 (fsub (Ask q) (Bid q))) \<and>
      Quote.Symbol q = ''BRK.B''"
    by (auto simp: brkQuotes_def identifierOf_example)
  from m r a1 a2 b c one id show ?thesis
    using pricesOfQuotes_example [of "[]" "''n''" "Inr []"]
    by (intro conjI)
qed

text \<open>
  Claim C7, as stated, fails when a later quote is recorded under the identifier of
  \<open>BRK.A\<close>: when the brokerage answers with a quote of \<open>BRK.B\<close> and then a quote of
  \<open>BRK.A\<close>, the entry for \<open>BRK.A\<close> is the price of its own quote, 450001, while the
  reference price of \<open>BRK.B\<close> is 301.
\<close>

theorem quoted_BRK_A_keeps_own_price:
  "brkBothQuotes ! 0 = \<lparr>Ask = Finite 302, Bid = Finite 300, Quote.Symbol = ''BRK.B''\<rparr> \<and>
   referencePrice (brkBothQuotes ! 0) = Finite 301 \<and>
   identifierOf (exampleWorld [] ''n'' (Inr [])) ''BRK.A'' = Some ''BBG000DWCFL4'' \<and>
   identifierOf (exampleWorld [] ''n'' (Inr [])) ''BRK.B'' = Some ''BBG000DWG505'' \<and>
   snd (pricesOfQuotes (exampleWorld [] ''n'' (Inr [])) Map.empty brkBothQuotes) =
     Inr [''BBG000DWG505'' \<mapsto> Finite 301, ''BBG000DWCFL4'' \<mapsto> Finite 450001]"
  by (simp add: pricesOfQuotes_brkBoth identifierOf_example)
     (simp add: brkBothQuotes_def referencePrice_def)

text \<open>
  Claim C7, amended. When the loop over the quotes succeeds and one of the quotes is for
  \<open>BRK.B\<close>, the identifier of \<open>BRK.A\<close> has been looked up and the price map has an entry
  for it; when the answers name every security once (the quotes are for distinct symbols,
  none of them \<open>BRK.A\<close>, with distinct identifiers), that entry is the reference price of
  the \<open>BRK.B\<close> quote, the same as the entry for \<open>BRK.B\<close> itself. For trading,
  \<open>pvTicker2TradeStation\<close> maps \<open>BRK.A\<close> (written with a dot or with a slash) to
  \<open>BRK.B\<close>.
\<close>

theorem pricesOfQuotes_dual_class:
  assumes "snd (pricesOfQuotes w Map.empty quotes) = Inr prices"
    and "q \<in> set quotes" and "Quote.Symbol q = ''BRK.B''"
  shows "(\<exists>figiA figiB. identifierOf w ''BRK.A'' = Some figiA \<and> identifierOf w ''BRK.B'' = Some figiB \<and>
            figiA \<in> dom prices \<and>
            (oneIdentifierEach w quotes \<longrightarrow>
               prices figiA = Some (referencePrice q) \<and> prices figiB = Some (referencePrice q))) \<and>
         pvTicker2TradeStation ''BRK.A'' = ''BRK.B'' \<and> pvTicker2TradeStation ''BRK/A'' = ''BRK.B''"
proof -
  from pricesOfQuotes_BRK_A [OF assms]
  obtain figiA where A: "identifierOf w ''BRK.A'' = Some figiA" "figiA \<in> dom prices"
    and same: "(\<forall>q'\<in>set quotes. agree w figiA (referencePrice q) q') \<longrightarrow>
       prices figiA = Some (referencePrice q)"
    by blast
  from pricesOfQuotes_resolves [OF assms(1,2)] assms(3)
  obtain figiB where B: "identifierOf w ''BRK.B'' = Some figiB"
    by auto
  have "prices figiA = Some (referencePrice q) \<and> prices figiB = Some (referencePrice q)"
    if one: "oneIdentifierEach w quotes"
  proof
    have "\<forall>q'\<in>set quotes. agree w figiA (referencePrice q) q'"
      using oneIdentifierEach_agree_BRK_A [OF one assms(2) _ assms(3) A(1)] by blast
    with same show "prices figiA = Some (referencePrice q)" by blast
    have Bq: "identifierOf w (Quote.Symbol q) = Some figiB"
      using B assms(3) by simp
    have "\<forall>q'\<in>set quotes. agree w figiB (referencePrice q) q'"
      using oneIdentifierEach_agree [OF one assms(2) _ Bq] by blast
    then show "prices figiB = Some (referencePrice q)"
      by (rule pricesOfQuotes_entry [OF assms(1,2) Bq])
  qed
  moreover have "pvTicker2TradeStation ''BRK.A'' = ''BRK.B''" "pvTicker2TradeStation ''BRK/A'' = ''BRK.B''"
    by (simp_all add: pvTicker2TradeStation_def ReplaceAll_def)
  ultimately show ?thesis using A B by blast
qed

text \<open>
  Claim C7, amended, in the example world: the quote of \<open>BRK.B\<close> with bid 300 and ask 302
  puts the price 301 under the identifiers of both share classes.
\<close>

theorem pricesOfQuotes_dual_class_witness:
  "snd (pricesOfQuotes (exampleWorld [] ''n'' (Inr [])) Map.empty brkQuotes) = Inr brkPrices \<and>
   \<lparr>Ask = Finite 302, Bid = Finite 300, Quote.Symbol = ''BRK.B''\<rparr> \<in> set brkQuotes \<and>
   oneIdentifierEach (exampleWorld [] ''n'' (Inr [])) brkQuotes \<and>
   identifierOf (exampleWorld [] ''n'' (Inr [])) ''BRK.A'' = Some ''BBG000DWCFL4'' \<and>
   identifierOf (exampleWorld [] ''n'' (Inr [])) ''BRK.B'' = Some ''BBG000DWG505'' \<and>
   referencePrice \<lparr>Ask = Finite 302, Bid = Finite 300, Quote.Symbol = ''BRK.B''\<rparr> = Finite 301 \<and>
   brkPrices ''BBG000DWCFL4'' = Some (Finite 301) \<and> brkPrices ''BBG000DWG505'' = Some (Finite 301)"
proof -
  have m: "\<lparr>Ask = Finite 302, Bid = Finite 300, Quote.Symbol = ''BRK.B''\<rparr> \<in> set brkQuotes"
    by (simp add: brkQuotes_def)
  have r: "referencePrice \<lparr>Ask = Finite 302, Bid = Finite 300, Quote.Symbol = ''BRK.B''\<rparr> = Finite 301"
    by (simp add: referencePrice_def)
  from pricesOfQuotes_dual_class [OF pricesOfQuotes_example m, of "[]" "''n''" "Inr []"]
  have "brkPrices ''BBG000DWCFL4'' = Some (Finite 301) \<and> brkPrices ''BBG000DWG505'' = Some (Finite 301)"
    by (simp add: identifierOf_example oneIdentifierEach_example r)
  with m r show ?thesis
    by (simp add: pricesOfQuotes_example oneIdentifierEach_example identifierOf_example)
qed

section \<open>Properties of Sync\<close>

lemma planningEvent_securityFromSymbol:
  "securityFromSymbol w symbol = (evs, r) \<Longrightarrow> list_all planningEvent evs"
  by (auto simp: securityFromSymbol_def Let_def)

lemma planningEvent_convertPositionsToPV:
  "convertPositionsToPV w positions = (evs, r) \<Longrightarrow> list_all planningEvent evs"
  by (induction positions arbitrary: evs r) (auto simp: Let_def split: sum.splits prod.splits)

lemma planningEvent_allocationTickers:
  "allocationTickers w figis = (evs, r) \<Longrightarrow> list_all planningEvent evs"
  by (induction figis arbitrary: evs r)
     (auto simp: Let_def split: sum.splits prod.splits dest: planningEvent_securityFromSymbol)

lemma planningEvent_pricesOfQuotes:
  "pricesOfQuotes w prices quotes = (evs, r) \<Longrightarrow> list_all planningEvent evs"
  by (induction quotes arbitrary: prices evs r)
     (auto simp: Let_def split: sum.splits prod.splits if_splits dest: planningEvent_securityFromSymbol)

lemma planningEvent_GetStrategy:
  "GetStrategy w tlink positions balance = (evs, r) \<Longrightarrow> list_all planningEvent evs"
  unfolding GetStrategy_def Let_def
  by (auto split: sum.splits prod.splits
       dest: planningEvent_allocationTickers planningEvent_pricesOfQuotes)

lemma planningEvent_Sync_plan:
  "Sync_plan w tlink = (evs, r) \<Longrightarrow> list_all planningEvent evs"
  unfolding Sync_plan_def
  by (auto split: sum.splits prod.splits option.splits
       dest: planningEvent_convertPositionsToPV planningEvent_GetStrategy)

lemma Sync_after_plan:
  assumes "\<not> tradeDateNotArrived w tlink"
    and "Sync_plan w tlink = (evs, Inr (account, balance, strategyPlan))"
  shows "Sync w tlink autoConfirm =
     (evs @ fst (Sync_execute w tlink autoConfirm account balance strategyPlan),
      snd (Sync_execute w tlink autoConfirm account balance strategyPlan))"
  using assms by (simp add: Sync_def split: prod.splits)

lemma Sync_plan_example:
  "Sync_plan (exampleWorld trxs answer placed) exampleLink =
     (examplePlanning, Inr (exampleAccount, exampleBalance, examplePlan trxs))"
  by (simp add: Sync_plan_def exampleWorld_def exampleLink_def exampleAccount_def exampleSecurity_def
      exampleQuotes_def ReplaceAll_def GetStrategy_def securityFromSymbol_def pvTicker2TradeStation_def
      examplePlanning_def Let_def del: set_map set_filter)

lemma tradeDate_example: "\<not> tradeDateNotArrived (exampleWorld trxs answer placed) exampleLink"
  by (simp add: tradeDateNotArrived_def exampleLink_def)

lemma Sync_example:
  "Sync (exampleWorld exampleTrxs answer placed) exampleLink True =
     (examplePlanning @ [PrintPlan exampleOrderReqs, PrintCashLeft (Finite 1500),
        CallPlaceGroupOrder exampleOrderReqs,
        PrintOrders (case placed of Inl err \<Rightarrow> [] | Inr orders \<Rightarrow> orders)], Return None)"
  apply (simp add: Sync_def tradeDate_example Sync_plan_example Sync_execute_def Sync_submit_def Let_def split: sum.splits)
  apply (simp add: exampleWorld_fields createOrderRequests_example)
  apply (simp add: exampleOrderReqs_def exampleBalance_def float64_of_int64_def)
  done

text \<open>
  Claim C10. When the last trade date of the configuration is set and the next trade date
  lies after the reading of the clock, \<open>Sync\<close> returns \<open>nil\<close> at once: no request is
  sent, nothing is shown and no order is placed.
\<close>

theorem Sync_before_next_trade_date:
  assumes "LastTradeDate tlink \<noteq> zeroTime" and "now w < TradeLink.NextTradeDate tlink"
  shows "Sync w tlink autoConfirm = ([], Return None)"
  using assms by (simp add: Sync_def tradeDateNotArrived_def)

text \<open>
  Claim C10 in the example world, with the clock at 1000, the last trade date 500 and the
  next trade date 2000.
\<close>

theorem Sync_before_next_trade_date_witness:
  "LastTradeDate (exampleLink\<lparr>LastTradeDate := 500, TradeLink.NextTradeDate := 2000\<rparr>) \<noteq> zeroTime \<and>
   now (exampleWorld exampleTrxs ''Y'' (Inr [])) <
     TradeLink.NextTradeDate (exampleLink\<lparr>LastTradeDate := 500, TradeLink.NextTradeDate := 2000\<rparr>) \<and>
   Sync (exampleWorld exampleTrxs ''Y'' (Inr []))
     (exampleLink\<lparr>LastTradeDate := 500, TradeLink.NextTradeDate := 2000\<rparr>) True = ([], Return None)"
  using Sync_before_next_trade_date [of "exampleLink\<lparr>LastTradeDate := 500, TradeLink.NextTradeDate := 2000\<rparr>"
      "exampleWorld exampleTrxs ''Y'' (Inr [])" True]
  by (simp add: zeroTime_def exampleWorld_def)

text \<open>
  Claim C5. When the answer of the operator is not \<open>y\<close> or \<open>Y\<close>, a run without the
  flag places no group order, and if it gets as far as asking it returns the error
  \<open>user did not confirm transactions\<close>. A run with the flag never asks, and whenever it
  shows the plan it goes on to place the group order.
\<close>

theorem Sync_confirmation:
  "(confirmInput w \<noteq> ''y'' \<and> confirmInput w \<noteq> ''Y'' \<longrightarrow>
      (\<forall>orderReqs. CallPlaceGroupOrder orderReqs \<notin> set (fst (Sync w tlink False))) \<and>
      (AskConfirm \<in> set (fst (Sync w tlink False)) \<longrightarrow>
         snd (Sync w tlink False) = Return (Some ''user did not confirm transactions''))) \<and>
   AskConfirm \<notin> set (fst (Sync w tlink True)) \<and>
   ((\<exists>cashLeft. PrintCashLeft cashLeft \<in> set (fst (Sync w tlink True))) \<longrightarrow>
      (\<exists>orderReqs. CallPlaceGroupOrder orderReqs \<in> set (fst (Sync w tlink True))))"
proof -
  obtain evs r where plan: "Sync_plan w tlink = (evs, r)"
    by (cases "Sync_plan w tlink")
  have pe: "list_all planningEvent evs"
    using plan by (rule planningEvent_Sync_plan)
  have no: "AskConfirm \<notin> set evs" "\<And>orderReqs. CallPlaceGroupOrder orderReqs \<notin> set evs"
    "\<And>cashLeft. PrintCashLeft cashLeft \<notin> set evs"
    using pe by (auto simp: list_all_iff)
  show ?thesis
  proof (cases "tradeDateNotArrived w tlink")
    case True
    then show ?thesis by (simp add: Sync_def)
  next
    case False
    show ?thesis
    proof (cases r)
      case (Inl out)
      with False plan no show ?thesis by (simp add: Sync_def)
    next
      case (Inr t)
      obtain account balance strategyPlan where t: "t = (account, balance, strategyPlan)"
        by (cases t)
      from False plan Inr t no show ?thesis
        by (simp add: Sync_def Sync_execute_def Sync_submit_def Let_def ToUpper_Y split: sum.splits)
    qed
  qed
qed

text \<open>
  Claim C5 in the example world, where the operator answers \<open>n\<close>.
\<close>

theorem Sync_confirmation_witness:
  "confirmInput (exampleWorld exampleTrxs ''n'' (Inr [])) \<noteq> ''y'' \<and>
   confirmInput (exampleWorld exampleTrxs ''n'' (Inr [])) \<noteq> ''Y'' \<and>
   AskConfirm \<in> set (fst (Sync (exampleWorld exampleTrxs ''n'' (Inr [])) exampleLink False)) \<and>
   snd (Sync (exampleWorld exampleTrxs ''n'' (Inr [])) exampleLink False) =
     Return (Some ''user did not confirm transactions'') \<and>
   (\<forall>orderReqs. CallPlaceGroupOrder orderReqs \<notin>
      set (fst (Sync (exampleWorld exampleTrxs ''n'' (Inr [])) exampleLink False))) \<and>
   PrintCashLeft (Finite 1500) \<in> set (fst (Sync (exampleWorld exampleTrxs ''n'' (Inr [])) exampleLink True)) \<and>
   AskConfirm \<notin> set (fst (Sync (exampleWorld exampleTrxs ''n'' (Inr [])) exampleLink True)) \<and>
   (\<exists>orderReqs. CallPlaceGroupOrder orderReqs \<in>
      set (fst (Sync (exampleWorld exampleTrxs ''n'' (Inr [])) exampleLink True)))"
proof -
  have n: "confirmInput (exampleWorld exampleTrxs ''n'' (Inr [])) \<noteq> ''y''"
    "confirmInput (exampleWorld exampleTrxs ''n'' (Inr [])) \<noteq> ''Y''"
    by (simp_all add: exampleWorld_fields)
  have ask: "AskConfirm \<in> set (fst (Sync (exampleWorld exampleTrxs ''n'' (Inr [])) exampleLink False))"
    by (simp add: Sync_def tradeDate_example Sync_plan_example Sync_execute_def Let_def ToUpper_Y n)
  have shown: "PrintCashLeft (Finite 1500) \<in> set (fst (Sync (exampleWorld exampleTrxs ''n'' (Inr [])) exampleLink True))"
    by (simp add: Sync_example)
  from Sync_confirmation [of "exampleWorld exampleTrxs ''n'' (Inr [])" exampleLink] n ask shown
  show ?thesis by blast
qed

text \<open>
  Claim C3, as stated, fails: in the example world with an empty plan, a run with the flag
  places a group order of no requests, and a run without the flag asks the operator.
\<close>

theorem empty_plan_is_submitted:
  "snd (Sync_plan (exampleWorld [] ''n'' (Inr [])) exampleLink) =
      Inr (exampleAccount, exampleBalance, examplePlan []) \<and>
   Transactions (examplePlan []) = [] \<and>
   CallPlaceGroupOrder [] \<in> set (fst (Sync (exampleWorld [] ''n'' (Inr [])) exampleLink True)) \<and>
   AskConfirm \<in> set (fst (Sync (exampleWorld [] ''n'' (Inr [])) exampleLink False))"
  by (simp add: Sync_plan_example Sync_def tradeDate_example Sync_execute_def Sync_submit_def Let_def
      ToUpper_Y examplePlan_def createOrderRequests_def exampleWorld_fields)

text \<open>
  Claim C3, amended. When planning yields no transactions, \<open>Sync\<close> shows the empty plan
  and the unchanged cash balance and then treats the confirmation like for any other plan.
  With the flag, or with the answer \<open>y\<close> or \<open>Y\<close>, it places a group order of no
  requests, and when the brokerage accepts that order it shows the orders of the answer and
  returns \<open>nil\<close>. With any other answer it returns the error
  \<open>user did not confirm transactions\<close> and places nothing.
\<close>

theorem Sync_empty_plan_confirmation:
  assumes "\<not> tradeDateNotArrived w tlink"
    and "Sync_plan w tlink = (evs, Inr (account, balance, strategyPlan))"
    and "Transactions strategyPlan = []"
  shows "(autoConfirm \<or> confirmInput w = ''y'' \<or> confirmInput w = ''Y'' \<longrightarrow>
            (\<exists>rest. fst (Sync w tlink autoConfirm) =
               evs @ [PrintPlan [], PrintCashLeft (CashBalance balance)]
                   @ (if autoConfirm then [] else [AskConfirm]) @ [CallPlaceGroupOrder []] @ rest) \<and>
            (\<forall>orders. PlaceGroupOrder w account [] = Inr orders \<longrightarrow>
               Sync w tlink autoConfirm =
                 (evs @ [PrintPlan [], PrintCashLeft (CashBalance balance)]
                      @ (if autoConfirm then [] else [AskConfirm])
                      @ [CallPlaceGroupOrder [], PrintOrders orders],
                  Return None))) \<and>
         (\<not> autoConfirm \<and> confirmInput w \<noteq> ''y'' \<and> confirmInput w \<noteq> ''Y'' \<longrightarrow>
            Sync w tlink autoConfirm =
              (evs @ [PrintPlan [], PrintCashLeft (CashBalance balance), AskConfirm],
               Return (Some ''user did not confirm transactions'')))"
proof -
  have ex: "Sync_execute w tlink autoConfirm account balance strategyPlan =
     (if autoConfirm then
        (case Sync_submit w account [] of
           (evs, out) \<Rightarrow> ([PrintPlan [], PrintCashLeft (CashBalance balance)] @ evs, out))
      else if confirmInput w = ''y'' \<or> confirmInput w = ''Y'' then
        (case Sync_submit w account [] of
           (evs, out) \<Rightarrow> ([PrintPlan [], PrintCashLeft (CashBalance balance)] @ [AskConfirm] @ evs, out))
      else ([PrintPlan [], PrintCashLeft (CashBalance balance), AskConfirm],
            Return (Some ''user did not confirm transactions'')))"
    using assms(3) by (simp add: Sync_execute_def createOrderRequests_def ToUpper_Y)
  have sub: "\<exists>rest. fst (Sync_submit w account []) = CallPlaceGroupOrder [] # rest"
    by (simp add: Sync_submit_def split: sum.splits)
  have ok: "Sync_submit w account [] = ([CallPlaceGroupOrder [], PrintOrders orders], Return None)"
    if "PlaceGroupOrder w account [] = Inr orders" for orders
    using that by (simp add: Sync_submit_def)
  from sub obtain rest where rest: "fst (Sync_submit w account []) = CallPlaceGroupOrder [] # rest" ..
  show ?thesis
    unfolding Sync_after_plan [OF assms(1,2)] ex
    using rest ok by (auto split: prod.splits)
qed

text \<open>
  Claim C3, amended, in the example world with an empty plan, where the brokerage accepts
  the empty group order: with the flag, and without the flag for the answer \<open>n\<close>.
\<close>

theorem Sync_empty_plan_confirmation_witness:
  "\<not> tradeDateNotArrived (exampleWorld [] ''n'' (Inr [])) exampleLink \<and>
   Sync_plan (exampleWorld [] ''n'' (Inr [])) exampleLink =
     (examplePlanning, Inr (exampleAccount, exampleBalance, examplePlan [])) \<and>
   Transactions (examplePlan []) = [] \<and>
   PlaceGroupOrder (exampleWorld [] ''n'' (Inr [])) exampleAccount [] = Inr [] \<and>
   confirmInput (exampleWorld [] ''n'' (Inr [])) = ''n'' \<and>
   Sync (exampleWorld [] ''n'' (Inr [])) exampleLink True =
     (examplePlanning @ [PrintPlan [], PrintCashLeft (Finite 1000), CallPlaceGroupOrder [],
        PrintOrders []],
      Return None) \<and>
   Sync (exampleWorld [] ''n'' (Inr [])) exampleLink False =
     (examplePlanning @ [PrintPlan [], PrintCashLeft (Finite 1000), AskConfirm],
      Return (Some ''user did not confirm transactions''))"
proof -
  have g: "\<not> tradeDateNotArrived (exampleWorld [] ''n'' (Inr [])) exampleLink"
    by (rule tradeDate_example)
  have p: "Sync_plan (exampleWorld [] ''n'' (Inr [])) exampleLink =
     (examplePlanning, Inr (exampleAccount, exampleBalance, examplePlan []))"
    by (rule Sync_plan_example)
  have e: "Transactions (examplePlan []) = []"
    by (simp add: examplePlan_def)
  have a: "PlaceGroupOrder (exampleWorld [] ''n'' (Inr [])) exampleAccount [] = Inr []"
    "confirmInput (exampleWorld [] ''n'' (Inr [])) = ''n''"
    by (simp_all add: exampleWorld_fields)
  from Sync_empty_plan_confirmation [OF g p e, of True] Sync_empty_plan_confirmation [OF g p e, of False]
    g p e a
  show ?thesis
    by (simp add: exampleBalance_def)
qed

lemma cashLeft_loop_exact:
  "ledgerExact c orderReqs \<Longrightarrow>
   cashLeft_loop (Finite c) orderReqs =
     Finite (c - sum_list (map exactCost (filter (\<lambda>req. TradeAction req = BUY) orderReqs))
               + sum_list (map exactCost (filter (\<lambda>req. TradeAction req \<noteq> BUY) orderReqs)))"
proof (induction orderReqs arbitrary: c)
  case Nil
  then show ?case by simp
next
  case (Cons req rest)
  from Cons.prems obtain p where p: "LimitPrice req = Finite p"
    by (cases "LimitPrice req") simp_all
  let ?n = "real_of_int (sint (OrderRequest.Quantity req))"
  let ?c' = "if TradeAction req = ''BUY'' then c - p * ?n else c + p * ?n"
  from Cons.prems p have n: "round64 ?n = Finite ?n" and t: "round64 (p * ?n) = Finite (p * ?n)"
    and c': "round64 ?c' = Finite ?c'" and rest: "ledgerExact ?c' rest"
    by (auto simp: Let_def split: if_splits)
  have cost: "exactCost req = p * ?n"
    by (simp add: exactCost_def p)
  have step: "(if TradeAction req = ''BUY''
        then fsub (Finite c) (fmul (LimitPrice req) (float64_of_int64 (OrderRequest.Quantity req)))
        else fadd (Finite c) (fmul (LimitPrice req) (float64_of_int64 (OrderRequest.Quantity req)))) =
      Finite ?c'"
    using c' n t by (simp add: p float64_of_int64_def split: if_splits)
  have "cashLeft_loop (Finite c) (req # rest) = cashLeft_loop (Finite ?c') rest"
    by (simp only: cashLeft_loop.simps step)
  also have "\<dots> = Finite (?c' - sum_list (map exactCost (filter (\<lambda>req. TradeAction req = BUY) rest))
               + sum_list (map exactCost (filter (\<lambda>req. TradeAction req \<noteq> BUY) rest)))"
    by (rule Cons.IH [OF rest])
  also have "\<dots> = Finite (c - sum_list (map exactCost (filter (\<lambda>req. TradeAction req = BUY) (req # rest)))
               + sum_list (map exactCost (filter (\<lambda>req. TradeAction req \<noteq> BUY) (req # rest))))"
    by (simp add: cost)
  finally show ?case .
qed

lemma filter_SELL:
  "\<forall>req\<in>set orderReqs. TradeAction req = BUY \<or> TradeAction req = SELL \<Longrightarrow>
   filter (\<lambda>req. TradeAction req \<noteq> BUY) orderReqs = filter (\<lambda>req. TradeAction req = SELL) orderReqs"
  by (rule filter_cong) auto

lemma ledgerExact_example: "ledgerExact 1000 exampleOrderReqs"
  by (simp add: exampleOrderReqs_def Let_def)

lemma exactCost_example:
  "sum_list (map exactCost (filter (\<lambda>req. TradeAction req = BUY) exampleOrderReqs)) = 100 * 10"
  "sum_list (map exactCost (filter (\<lambda>req. TradeAction req = SELL) exampleOrderReqs)) = 10 * 150"
  by (simp_all add: exampleOrderReqs_def exactCost_def)

lemma largeWorld_fields:
  "PlaceGroupOrder largeWorld account orderReqs = Inr []"
  "outOfRange largeWorld = amd64"
  by (simp_all add: largeWorld_def exampleWorld_def)

lemma tradeDate_large: "\<not> tradeDateNotArrived largeWorld exampleLink"
  by (simp add: tradeDateNotArrived_def exampleLink_def)

lemma Sync_plan_large:
  "Sync_plan largeWorld exampleLink =
     (examplePlanning, Inr (exampleAccount, largeBalance, examplePlan twoBuys))"
  by (simp add: Sync_plan_def largeWorld_def exampleWorld_def exampleLink_def exampleAccount_def
      exampleSecurity_def exampleQuotes_def ReplaceAll_def GetStrategy_def securityFromSymbol_def
      pvTicker2TradeStation_def examplePlanning_def Let_def del: set_map set_filter)

lemma cashLeft_loop_twoBuys:
  "cashLeft_loop (CashBalance largeBalance) twoBuyReqs = Finite 10000000000000000"
  by (simp add: largeBalance_def twoBuyReqs_def float64_of_int64_def round64_tie)

text \<open>
  Claim C9, as stated, fails, since the ledger is kept in \<open>float64\<close>. With
  \<open>10 ^ 16\<close> in cash and a plan that buys one share at the price 1 twice, each
  subtraction gives \<open>10 ^ 16 - 1\<close>, which is rounded back to \<open>10 ^ 16\<close>: the figure
  shown is \<open>10 ^ 16\<close>, while the cash minus the sum of the two purchases is
  \<open>10 ^ 16 - 2\<close>.
\<close>

theorem rounded_ledger_differs:
  "Sync_plan largeWorld exampleLink =
     (examplePlanning, Inr (exampleAccount, largeBalance, examplePlan twoBuys)) \<and>
   CashBalance largeBalance = Finite 10000000000000000 \<and>
   createOrderRequests (outOfRange largeWorld) exampleLink (examplePlan twoBuys) largeBalance =
     twoBuyReqs \<and>
   map (\<lambda>req. (TradeAction req, LimitPrice req, sint (OrderRequest.Quantity req))) twoBuyReqs =
     [(''BUY'', Finite 1, 1), (''BUY'', Finite 1, 1)] \<and>
   Sync largeWorld exampleLink True =
     (examplePlanning @ [PrintPlan twoBuyReqs, PrintCashLeft (Finite 10000000000000000),
        CallPlaceGroupOrder twoBuyReqs, PrintOrders []], Return None) \<and>
   (10000000000000000 - (1 * 1 + 1 * 1) :: real) = 9999999999999998"
proof -
  have r: "createOrderRequests (outOfRange largeWorld) exampleLink (examplePlan twoBuys) largeBalance =
     twoBuyReqs"
    by (simp add: largeWorld_fields createOrderRequests_twoBuys)
  have s: "Sync largeWorld exampleLink True =
     (examplePlanning @ [PrintPlan twoBuyReqs, PrintCashLeft (Finite 10000000000000000),
        CallPlaceGroupOrder twoBuyReqs, PrintOrders []], Return None)"
    by (simp add: Sync_def tradeDate_large Sync_plan_large Sync_execute_def Sync_submit_def Let_def
        createOrderRequests_twoBuys cashLeft_loop_twoBuys largeWorld_fields)
  have m: "map (\<lambda>req. (TradeAction req, LimitPrice req, sint (OrderRequest.Quantity req))) twoBuyReqs =
     [(''BUY'', Finite 1, 1), (''BUY'', Finite 1, 1)]"
    by (simp add: twoBuyReqs_def)
  have c: "CashBalance largeBalance = Finite 10000000000000000"
    by (simp add: largeBalance_def)
  have a: "(10000000000000000 - (1 * 1 + 1 * 1) :: real) = 9999999999999998"
    by simp
  from c r m s a show ?thesis
    using Sync_plan_large by (intro conjI)
qed

text \<open>
  Claim C9, amended. When planning succeeds and every order request is a \<open>BUY\<close> or a
  \<open>SELL\<close>, the figure shown as cash left is the result of the running ledger in
  \<open>float64\<close> arithmetic: starting from the cash balance, every \<open>BUY\<close> request, in the
  order of the plan, lowers it by limit price times quantity and every \<open>SELL\<close> request
  raises it, the conversion of the quantity, the product and the sum each rounded to the
  nearest \<open>float64\<close>. When none of these operations rounds, the figure is the cash
  balance minus the sum of limit price times quantity over the \<open>BUY\<close> requests plus that
  sum over the \<open>SELL\<close> requests. The requests shown are one per transaction of the plan,
  built without regard to the cash.
\<close>

theorem Sync_cash_left:
  assumes "\<not> tradeDateNotArrived w tlink"
    and "Sync_plan w tlink = (evs, Inr (account, balance, strategyPlan))"
    and "orderReqs = createOrderRequests (outOfRange w) tlink strategyPlan balance"
    and "\<forall>req\<in>set orderReqs. TradeAction req = BUY \<or> TradeAction req = SELL"
  shows "(\<exists>rest. fst (Sync w tlink autoConfirm) =
            evs @ [PrintPlan orderReqs, PrintCashLeft (cashLeft_loop (CashBalance balance) orderReqs)]
                @ rest) \<and>
         (\<forall>c. CashBalance balance = Finite c \<and> ledgerExact c orderReqs \<longrightarrow>
            cashLeft_loop (CashBalance balance) orderReqs =
              Finite (c - sum_list (map exactCost (filter (\<lambda>req. TradeAction req = BUY) orderReqs))
                        + sum_list (map exactCost (filter (\<lambda>req. TradeAction req = SELL) orderReqs)))) \<and>
         orderReqs = map (orderRequestOf (outOfRange w) tlink) (Transactions strategyPlan)"
proof (intro conjI allI impI)
  have "\<exists>rest. fst (Sync_execute w tlink autoConfirm account balance strategyPlan) =
          [PrintPlan orderReqs, PrintCashLeft (cashLeft_loop (CashBalance balance) orderReqs)] @ rest"
    by (simp add: Sync_execute_def Let_def assms(3) split: prod.splits)
  then obtain rest where "fst (Sync_execute w tlink autoConfirm account balance strategyPlan) =
          [PrintPlan orderReqs, PrintCashLeft (cashLeft_loop (CashBalance balance) orderReqs)] @ rest" ..
  then have "fst (Sync w tlink autoConfirm) =
      evs @ [PrintPlan orderReqs, PrintCashLeft (cashLeft_loop (CashBalance balance) orderReqs)] @ rest"
    by (simp add: Sync_after_plan [OF assms(1,2)])
  then show "\<exists>rest. fst (Sync w tlink autoConfirm) =
      evs @ [PrintPlan orderReqs, PrintCashLeft (cashLeft_loop (CashBalance balance) orderReqs)] @ rest" ..
next
  fix c
  assume "CashBalance balance = Finite c \<and> ledgerExact c orderReqs"
  then show "cashLeft_loop (CashBalance balance) orderReqs =
      Finite (c - sum_list (map exactCost (filter (\<lambda>req. TradeAction req = BUY) orderReqs))
                + sum_list (map exactCost (filter (\<lambda>req. TradeAction req = SELL) orderReqs)))"
    using cashLeft_loop_exact [of c orderReqs] filter_SELL [OF assms(4)] by simp
next
  show "orderReqs = map (orderRequestOf (outOfRange w) tlink) (Transactions strategyPlan)"
    by (simp add: assms(3) createOrderRequests_map)
qed

text \<open>
  Claim C9, amended, in the example world: with 1000 in cash, selling 10 AAPL at 150 and
  buying 100 MSFT at 10, where no operation rounds, shows \<open>1000 - 100 * 10 + 10 * 150\<close>
  as cash left.
\<close>

theorem Sync_cash_left_witness:
  "\<not> tradeDateNotArrived (exampleWorld exampleTrxs ''n'' (Inr [])) exampleLink \<and>
   Sync_plan (exampleWorld exampleTrxs ''n'' (Inr [])) exampleLink =
     (examplePlanning, Inr (exampleAccount, exampleBalance, examplePlan exampleTrxs)) \<and>
   exampleOrderReqs = createOrderRequests (outOfRange (exampleWorld exampleTrxs ''n'' (Inr []))) exampleLink
     (examplePlan exampleTrxs) exampleBalance \<and>
   list_all (\<lambda>req. TradeAction req = BUY \<or> TradeAction req = SELL) exampleOrderReqs \<and>
   CashBalance exampleBalance = Finite 1000 \<and>
   ledgerExact 1000 exampleOrderReqs \<and>
   cashLeft_loop (CashBalance exampleBalance) exampleOrderReqs = Finite (1000 - 100 * 10 + 10 * 150) \<and>
   (\<exists>rest. fst (Sync (exampleWorld exampleTrxs ''n'' (Inr [])) exampleLink False) =
      examplePlanning @ [PrintPlan exampleOrderReqs, PrintCashLeft (Finite (1000 - 100 * 10 + 10 * 150))]
        @ rest)"
proof -
  have g: "\<not> tradeDateNotArrived (exampleWorld exampleTrxs ''n'' (Inr [])) exampleLink"
    by (rule tradeDate_example)
  have p: "Sync_plan (exampleWorld exampleTrxs ''n'' (Inr [])) exampleLink =
     (examplePlanning, Inr (exampleAccount, exampleBalance, examplePlan exampleTrxs))"
    by (rule Sync_plan_example)
  have r: "exampleOrderReqs = createOrderRequests (outOfRange (exampleWorld exampleTrxs ''n'' (Inr []))) exampleLink
     (examplePlan exampleTrxs) exampleBalance"
    by (simp add: exampleWorld_fields createOrderRequests_example)
  have a: "\<forall>req\<in>set exampleOrderReqs. TradeAction req = BUY \<or> TradeAction req = SELL"
    by (simp add: exampleOrderReqs_def)
  have c: "CashBalance exampleBalance = Finite 1000"
    by (simp add: exampleBalance_def)
  note t = Sync_cash_left [OF g p r a, of False]
  from t [THEN conjunct2, THEN conjunct1, rule_format, of 1000] c ledgerExact_example
  have val: "cashLeft_loop (CashBalance exampleBalance) exampleOrderReqs =
      Finite (1000 - 100 * 10 + 10 * 150)"
    by (simp only: exactCost_example simp_thms)
  have shown: "\<exists>rest. fst (Sync (exampleWorld exampleTrxs ''n'' (Inr [])) exampleLink False) =
      examplePlanning @ [PrintPlan exampleOrderReqs, PrintCashLeft (Finite (1000 - 100 * 10 + 10 * 150))]
        @ rest"
    using t [THEN conjunct1] unfolding val .
  have l: "list_all (\<lambda>req. TradeAction req = BUY \<or> TradeAction req = SELL) exampleOrderReqs"
    by (simp add: exampleOrderReqs_def)
  from g p r l c val shown show ?thesis
    using ledgerExact_example by (intro conjI)
qed

text \<open>
  Claim C2. An error of \<open>PlaceGroupOrder\<close> should make \<open>Sync\<close> return it. In the
  example world where the brokerage answers the group order with an error, \<open>Sync\<close> shows
  an empty list of orders and returns \<open>nil\<close>.
\<close>

theorem Sync_ignores_submission_error:
  "Sync (exampleWorld exampleTrxs ''n'' (Inl ''received errors in place order group'')) exampleLink True =
     (examplePlanning @ [PrintPlan exampleOrderReqs, PrintCashLeft (Finite 1500),
        CallPlaceGroupOrder exampleOrderReqs, PrintOrders []], Return None)"
  by (simp add: Sync_example)

text \<open>
  Claim C4. After a fill that leaves a remainder, the run should plan again. In the example
  world where the brokerage reports 60 of 100 shares bought and 40 remaining, \<open>Sync\<close>
  shows the report and returns \<open>nil\<close>: one planning pass, one group order, nothing after.
\<close>

theorem Sync_single_pass:
  "Sync (exampleWorld exampleTrxs ''n'' (Inr partialFill)) exampleLink True =
     (examplePlanning @ [PrintPlan exampleOrderReqs, PrintCashLeft (Finite 1500),
        CallPlaceGroupOrder exampleOrderReqs, PrintOrders partialFill], Return None)"
  by (simp add: Sync_example)

end
